theory Spec2Isabelle
  imports Main "HOL-Library.Sublist"
begin

section \<open>Values, errors and integer coercion\<close>

text \<open>
  The janitor script \<^verbatim>\<open>tools/pi-token-janitor.py\<close> selects token records and applies
  one action to each of them. Exceptions of the script are values of the type \<open>error\<close>;
  a computation that may raise returns \<open>error + 'a\<close>, with \<open>Inl\<close> the exception.
  \<open>OtherError\<close> stands for any exception class of a collaborator that the script does
  not name itself.
\<close>

datatype error =
    ValueError
  | TypeError
  | IndexError
  | AttributeError
  | UnboundLocalError
  | ClickException string
  | OtherError string

text \<open>
  A field value as the comparators receive it: a tokeninfo value is a string, a column of
  the token table is an integer, a boolean or a string. Python's \<^verbatim>\<open>None\<close> is not a
  \<open>pyval\<close>: \<^verbatim>\<open>_get_tokenlist\<close> skips the record before any comparator sees it, and a
  lookup that may give \<^verbatim>\<open>None\<close> returns \<open>pyval option\<close>.
\<close>

datatype pyval = PInt int | PBool bool | PStr string

text \<open>
  Strings are ASCII here (a \<open>char\<close> is a byte). The whitespace of \<^verbatim>\<open>str.strip\<close> and of
  \<^verbatim>\<open>\s\<close> in a pattern includes the four separators \<^verbatim>\<open>0x1C\<close> to \<^verbatim>\<open>0x1F\<close>; the
  whitespace that \<^verbatim>\<open>int\<close> strips from an ASCII string does not.
\<close>

definition py_isspace :: "char \<Rightarrow> bool" where
  "py_isspace c = (c \<in> set [CHR 0x09, CHR 0x0A, CHR 0x0B, CHR 0x0C, CHR 0x0D,
                             CHR 0x1C, CHR 0x1D, CHR 0x1E, CHR 0x1F, CHR 0x20])"

definition py_strip :: "string \<Rightarrow> string" where
  "py_strip s = rev (dropWhile py_isspace (rev (dropWhile py_isspace s)))"

definition int_isspace :: "char \<Rightarrow> bool" where
  "int_isspace c = (c \<in> set [CHR 0x09, CHR 0x0A, CHR 0x0B, CHR 0x0C, CHR 0x0D, CHR 0x20])"

definition int_strip :: "string \<Rightarrow> string" where
  "int_strip s = rev (dropWhile int_isspace (rev (dropWhile int_isspace s)))"

text \<open>
  \<^verbatim>\<open>int(s)\<close> on a string: surrounding whitespace is stripped, one sign is allowed, and the
  rest is a non-empty run of decimal digits in which single underscores may separate
  digits. A text with more than 4300 digits is refused, as the interpreter does by
  default. \<open>None\<close> is the \<^verbatim>\<open>ValueError\<close>.
\<close>

definition max_str_digits :: nat where
  "max_str_digits = 4300"

definition is_digit :: "char \<Rightarrow> bool" where
  "is_digit c = (48 \<le> (of_char c :: nat) \<and> (of_char c :: nat) \<le> 57)"

definition digit_val :: "char \<Rightarrow> nat" where
  "digit_val c = of_char c - 48"

fun digits :: "nat \<Rightarrow> bool \<Rightarrow> string \<Rightarrow> nat option" where
  "digits acc prev_digit [] = (if prev_digit then Some acc else None)"
| "digits acc prev_digit (c # cs) =
     (if is_digit c then digits (10 * acc + digit_val c) True cs
      else if c = CHR ''_'' \<and> prev_digit then digits acc False cs
      else None)"

definition py_int_str :: "string \<Rightarrow> int option" where
  "py_int_str s =
     (if max_str_digits < length (filter is_digit s) then None
      else
        (case int_strip s of
           [] \<Rightarrow> None
         | c # cs \<Rightarrow>
             if c = CHR ''-'' then map_option (\<lambda>n. - int n) (digits 0 False cs)
             else if c = CHR ''+'' then map_option int (digits 0 False cs)
             else map_option int (digits 0 False (c # cs))))"

text \<open>\<^verbatim>\<open>int(value)\<close> on a field value; only a string can make it raise.\<close>

fun py_int :: "pyval \<Rightarrow> error + int" where
  "py_int (PInt i) = Inr i"
| "py_int (PBool b) = Inr (if b then 1 else 0)"
| "py_int (PStr s) = (case py_int_str s of None \<Rightarrow> Inl ValueError | Some i \<Rightarrow> Inr i)"

text \<open>A command-line option is truthy when it was given and is not the empty string.\<close>

fun truthy :: "string option \<Rightarrow> bool" where
  "truthy None = False"
| "truthy (Some s) = (s \<noteq> [])"

section \<open>Comparator factory\<close>

type_synonym comparator = "pyval \<Rightarrow> error + bool"

text \<open>\<^verbatim>\<open>_try_convert_to_integer\<close>: a \<^verbatim>\<open>ValueError\<close> becomes a \<^verbatim>\<open>ClickException\<close>.\<close>

definition try_convert_to_integer :: "string \<Rightarrow> error + int" where
  "try_convert_to_integer given_value_string =
     (case py_int (PStr given_value_string) of
        Inl ValueError \<Rightarrow> Inl (ClickException (''Not an integer: '' @ given_value_string))
      | Inl e \<Rightarrow> Inl e
      | Inr i \<Rightarrow> Inr i)"

text \<open>
  \<^verbatim>\<open>_compare_greater_than\<close> and \<^verbatim>\<open>_compare_less_than\<close>: the operand is converted when
  the comparator is built; the closure converts the field value and turns a
  \<^verbatim>\<open>ValueError\<close> into \<^verbatim>\<open>False\<close>.
\<close>

definition compare_greater_than :: "string \<Rightarrow> string \<Rightarrow> error + comparator" where
  "compare_greater_than key given_value_string =
     (case try_convert_to_integer given_value_string of
        Inl e \<Rightarrow> Inl e
      | Inr given_value \<Rightarrow>
          Inr (\<lambda>value. case py_int value of
                          Inl ValueError \<Rightarrow> Inr False
                        | Inl e \<Rightarrow> Inl e
                        | Inr i \<Rightarrow> Inr (i > given_value)))"

definition compare_less_than :: "string \<Rightarrow> string \<Rightarrow> error + comparator" where
  "compare_less_than key given_value_string =
     (case try_convert_to_integer given_value_string of
        Inl e \<Rightarrow> Inl e
      | Inr given_value \<Rightarrow>
          Inr (\<lambda>value. case py_int value of
                          Inl ValueError \<Rightarrow> Inr False
                        | Inl e \<Rightarrow> Inl e
                        | Inr i \<Rightarrow> Inr (i < given_value)))"


text \<open>
  A \<^verbatim>\<open>datetime\<close>: the wall-clock reading in microseconds and, when the value is aware,
  the offset of its zone from UTC. Comparing two aware values compares the instants,
  two naive values the readings; comparing an aware with a naive value raises
  \<^verbatim>\<open>TypeError\<close>.
\<close>

record datetime =
  wall :: int
  tzinfo :: "int option"

definition dt_less :: "datetime \<Rightarrow> datetime \<Rightarrow> error + bool" where
  "dt_less a b =
     (case (tzinfo a, tzinfo b) of
        (None, None) \<Rightarrow> Inr (wall a < wall b)
      | (Some oa, Some ob) \<Rightarrow> Inr (wall a - oa < wall b - ob)
      | _ \<Rightarrow> Inl TypeError)"

text \<open>
  The collaborators the script imports: the regular-expression search (only the
  truthiness of its result is used), the date parser of \<^verbatim>\<open>dateutil\<close> with and
  without \<^verbatim>\<open>tzinfos=tzutc\<close>, \<^verbatim>\<open>parse_legacy_time\<close>, the offset of the local zone
  at a wall-clock reading, the constant \<^verbatim>\<open>ACTION.LASTAUTH\<close>, the token store, the
  methods of a token object, and the encoders of the export formats. Each may raise
  any exception.
\<close>

record token =
  serial :: string
  description :: string
  tokentype :: string
  tokeninfo :: "(string \<times> string) list"
  columns :: "(string \<times> pyval) list"

record user =
  login :: string
  info :: "(string \<times> string) list"
  uid :: string
  resolver :: string
  realm :: string

type_synonym pydict = "(string \<times> string) list"

record ext =
  re_search :: "string \<Rightarrow> string \<Rightarrow> error + bool"
  parser_parse :: "pyval \<Rightarrow> error + datetime"
  parser_parse_tzutc :: "pyval \<Rightarrow> error + datetime"
  parse_legacy_time :: "pyval \<Rightarrow> error + string"
  tzlocal_utcoffset :: "int \<Rightarrow> int"
  LASTAUTH :: string
  get_tokens :: "string option \<Rightarrow> bool option \<Rightarrow> bool option \<Rightarrow> token list"
  check_last_auth_newer :: "token \<Rightarrow> string \<Rightarrow> error + bool"
  is_orphaned :: "token \<Rightarrow> error + bool"
  token_user :: "token \<Rightarrow> error + user option"
  to_dict :: "token \<Rightarrow> string option \<Rightarrow> error + pydict"
  yaml_safe_dump :: "pydict list \<Rightarrow> string"
  export_pskc :: "token list \<Rightarrow> error + string \<times> nat \<times> string"

text \<open>\<^verbatim>\<open>except ValueError: return False\<close> around a comparison.\<close>

fun except_ValueError :: "error + bool \<Rightarrow> error + bool" where
  "except_ValueError (Inl ValueError) = Inr False"
| "except_ValueError r = r"

definition parse_datetime :: "ext \<Rightarrow> string \<Rightarrow> pyval \<Rightarrow> error + datetime" where
  "parse_datetime x key value =
     (if key = LASTAUTH x then
        (case parser_parse x value of
           Inl e \<Rightarrow> Inl e
         | Inr last_auth \<Rightarrow>
             if tzinfo last_auth = None then parser_parse_tzutc x value else Inr last_auth)
      else
        (case parse_legacy_time x value of
           Inl e \<Rightarrow> Inl e
         | Inr s \<Rightarrow> parser_parse x (PStr s)))"

definition try_convert_to_datetime :: "ext \<Rightarrow> string \<Rightarrow> error + datetime" where
  "try_convert_to_datetime x given_value_string =
     (case parser_parse x (PStr given_value_string) of
        Inl ValueError \<Rightarrow>
          Inl (ClickException (''Not a valid datetime format: '' @ given_value_string))
      | Inl e \<Rightarrow> Inl e
      | Inr parsed \<Rightarrow>
          if tzinfo parsed = None
          then Inr (parsed\<lparr>tzinfo := Some (tzlocal_utcoffset x (wall parsed))\<rparr>)
          else Inr parsed)"

definition compare_after :: "ext \<Rightarrow> string \<Rightarrow> string \<Rightarrow> error + comparator" where
  "compare_after x key given_value_string =
     (case try_convert_to_datetime x given_value_string of
        Inl e \<Rightarrow> Inl e
      | Inr given_value \<Rightarrow>
          Inr (\<lambda>value. except_ValueError
                 (case parse_datetime x key value of
                    Inl e \<Rightarrow> Inl e
                  | Inr d \<Rightarrow> dt_less given_value d)))"

definition compare_before :: "ext \<Rightarrow> string \<Rightarrow> string \<Rightarrow> error + comparator" where
  "compare_before x key given_value_string =
     (case try_convert_to_datetime x given_value_string of
        Inl e \<Rightarrow> Inl e
      | Inr given_value \<Rightarrow>
          Inr (\<lambda>value. except_ValueError
                 (case parse_datetime x key value of
                    Inl e \<Rightarrow> Inl e
                  | Inr d \<Rightarrow> dt_less d given_value)))"

text \<open>
  \<^verbatim>\<open>_compare_regex_or_equal\<close> builds its closure without looking at the operand. The
  closure converts the operand to an integer when the field value is an integer or a
  boolean, and searches the operand as a pattern in a string value.
\<close>

definition compare_regex_or_equal :: "ext \<Rightarrow> string \<Rightarrow> string \<Rightarrow> comparator" where
  "compare_regex_or_equal x key given_regex =
     (\<lambda>value. case value of
        PInt i \<Rightarrow>
          (case try_convert_to_integer given_regex of
             Inl e \<Rightarrow> Inl e | Inr given_value \<Rightarrow> Inr (given_value = i))
      | PBool b \<Rightarrow>
          (case try_convert_to_integer given_regex of
             Inl e \<Rightarrow> Inl e | Inr given_value \<Rightarrow> Inr (given_value = (if b then 1 else 0)))
      | PStr s \<Rightarrow> re_search x given_regex s)"

section \<open>Criterion compiler\<close>

definition and_then :: "error + 'a \<Rightarrow> ('a \<Rightarrow> error + 'b) \<Rightarrow> error + 'b" where
  "and_then r f = (case r of Inl e \<Rightarrow> Inl e | Inr v \<Rightarrow> f v)"

text \<open>One \<^verbatim>\<open>if option: tvfilter.append(make(key, option))\<close> of the builder.\<close>

definition append_if ::
  "string option \<Rightarrow> (string \<Rightarrow> error + comparator) \<Rightarrow> comparator list \<Rightarrow> error + comparator list"
where
  "append_if opt mk tvfilter =
     (case opt of
        None \<Rightarrow> Inr tvfilter
      | Some v \<Rightarrow>
          if v = [] then Inr tvfilter
          else (case mk v of Inl e \<Rightarrow> Inl e | Inr c \<Rightarrow> Inr (tvfilter @ [c])))"

definition build_tokenvalue_filter ::
  "ext \<Rightarrow> string \<Rightarrow> string option \<Rightarrow> string option \<Rightarrow> string option \<Rightarrow> string option \<Rightarrow>
   string option \<Rightarrow> error + comparator list"
where
  "build_tokenvalue_filter x key tokeninfo_value tokeninfo_value_greater_than
       tokeninfo_value_less_than tokeninfo_value_after tokeninfo_value_before =
     and_then (append_if tokeninfo_value (\<lambda>v. Inr (compare_regex_or_equal x key v)) [])
       (\<lambda>f1. and_then (append_if tokeninfo_value_greater_than (compare_greater_than key) f1)
       (\<lambda>f2. and_then (append_if tokeninfo_value_less_than (compare_less_than key) f2)
       (\<lambda>f3. and_then (append_if tokeninfo_value_after (compare_after x key) f3)
       (\<lambda>f4. append_if tokeninfo_value_before (compare_before x key) f4))))"

text \<open>
  \<^verbatim>\<open>re.match(r"\s*[a-z][A-Z][0-9]\s*([<>=])\s*$", text)\<close>: the pattern of \<^verbatim>\<open>find\<close>. It
  has one group, so a match object knows the groups 0 (the whole match) and 1 (one
  character of \<^verbatim>\<open><>=\<close>); asking for any other group raises \<^verbatim>\<open>IndexError\<close>.
\<close>

record rematch =
  group0 :: string
  group1 :: string

definition is_lower :: "char \<Rightarrow> bool" where
  "is_lower c = (97 \<le> (of_char c :: nat) \<and> (of_char c :: nat) \<le> 122)"

definition is_upper :: "char \<Rightarrow> bool" where
  "is_upper c = (65 \<le> (of_char c :: nat) \<and> (of_char c :: nat) \<le> 90)"

definition re_match_criterion :: "string \<Rightarrow> rematch option" where
  "re_match_criterion expr =
     (case dropWhile py_isspace expr of
        a # b # c # rest \<Rightarrow>
          if is_lower a \<and> is_upper b \<and> is_digit c then
            (case dropWhile py_isspace rest of
               opc # tail \<Rightarrow>
                 if opc \<in> set ''<>='' \<and> list_all py_isspace tail
                 then Some \<lparr>group0 = expr, group1 = [opc]\<rparr>
                 else None
             | [] \<Rightarrow> None)
          else None
      | _ \<Rightarrow> None)"

definition m_group :: "rematch \<Rightarrow> nat \<Rightarrow> error + string" where
  "m_group m n = (if n = 0 then Inr (group0 m) else if n = 1 then Inr (group1 m)
                  else Inl IndexError)"

text \<open>
  The local variables of \<^verbatim>\<open>find\<close> that the branches assign; \<open>None\<close> is a name that was
  never bound, and reading it raises \<^verbatim>\<open>UnboundLocalError\<close>.
\<close>

record locals =
  value_eq :: "string option"
  value_greater_than :: "string option"
  value_less_than :: "string option"
  value_after :: "string option"
  value_before :: "string option"

definition unbound :: locals where
  "unbound = \<lparr>value_eq = None, value_greater_than = None, value_less_than = None,
              value_after = None, value_before = None\<rparr>"

definition read_local :: "string option \<Rightarrow> error + string option" where
  "read_local v = (case v of None \<Rightarrow> Inl UnboundLocalError | Some s \<Rightarrow> Inr (Some s))"

text \<open>The branches of lines 461 to 473: the \<^verbatim>\<open>try\<close> block and its bare \<^verbatim>\<open>except\<close>.\<close>

definition tokeninfo_try :: "rematch \<Rightarrow> error + locals" where
  "tokeninfo_try m =
     (if group1 m = ''>='' then
        and_then (m_group m 2) (\<lambda>v. Inr (unbound\<lparr>value_after := Some v\<rparr>))
      else if group1 m = ''<='' then
        and_then (m_group m 2) (\<lambda>v. Inr (unbound\<lparr>value_before := Some v\<rparr>))
      else Inr unbound)"

definition tokeninfo_except :: "rematch \<Rightarrow> error + locals" where
  "tokeninfo_except m =
     (if group1 m = ''<='' then
        and_then (m_group m 2) (\<lambda>v. Inr (unbound\<lparr>value_greater_than := Some v\<rparr>))
      else if group1 m = ''>='' then
        and_then (m_group m 2) (\<lambda>v. Inr (unbound\<lparr>value_less_than := Some v\<rparr>))
      else Inr unbound)"

definition tokeninfo_branches :: "rematch \<Rightarrow> error + locals" where
  "tokeninfo_branches m =
     (if group1 m = ''=='' then
        and_then (m_group m 2) (\<lambda>v. Inr (unbound\<lparr>value_eq := Some v\<rparr>))
      else (case tokeninfo_try m of Inl e \<Rightarrow> tokeninfo_except m | Inr l \<Rightarrow> Inr l))"

text \<open>
  Lines 458 to 479 of \<^verbatim>\<open>find\<close>: from the text of \<^verbatim>\<open>--tokeninfo\<close> to the key and the
  filter. \<^verbatim>\<open>re.match\<close> raises \<^verbatim>\<open>TypeError\<close> when the option was not given, and
  \<^verbatim>\<open>m.group\<close> raises \<^verbatim>\<open>AttributeError\<close> when there is no match. The arguments of the
  builder are read from left to right.
\<close>

definition find_tokeninfo :: "ext \<Rightarrow> string option \<Rightarrow> error + string \<times> comparator list" where
  "find_tokeninfo x tokeninfo_opt =
     (case tokeninfo_opt of
        None \<Rightarrow> Inl TypeError
      | Some expr \<Rightarrow>
          (case re_match_criterion expr of
             None \<Rightarrow> Inl AttributeError
           | Some m \<Rightarrow>
               and_then (m_group m 0) (\<lambda>tokeninfo_key.
               and_then (tokeninfo_branches m) (\<lambda>l.
               and_then (read_local (value_eq l)) (\<lambda>v.
               and_then (read_local (value_greater_than l)) (\<lambda>gt.
               and_then (read_local (value_less_than l)) (\<lambda>lt.
               and_then (read_local (value_after l)) (\<lambda>af.
               and_then (read_local (value_before l)) (\<lambda>be.
               and_then (build_tokenvalue_filter x tokeninfo_key v gt lt af be) (\<lambda>tvfilter.
               Inr (tokeninfo_key, tvfilter)))))))))))"

text \<open>Lines 480 to 493: the same for \<^verbatim>\<open>--tokenattribute\<close>, an \<^verbatim>\<open>if\<close> chain with no \<^verbatim>\<open>try\<close>.\<close>

definition tokenattribute_branches :: "rematch \<Rightarrow> error + locals" where
  "tokenattribute_branches m =
     (if group1 m = ''=='' then
        and_then (m_group m 2) (\<lambda>v. Inr (unbound\<lparr>value_eq := Some v\<rparr>))
      else if group1 m = ''<='' then
        and_then (m_group m 2) (\<lambda>v. Inr (unbound\<lparr>value_greater_than := Some v\<rparr>))
      else if group1 m = ''>='' then
        and_then (m_group m 2) (\<lambda>v. Inr (unbound\<lparr>value_less_than := Some v\<rparr>))
      else Inr unbound)"

definition find_tokenattribute :: "ext \<Rightarrow> string option \<Rightarrow> error + string \<times> comparator list" where
  "find_tokenattribute x tokenattribute_opt =
     (case tokenattribute_opt of
        None \<Rightarrow> Inl TypeError
      | Some expr \<Rightarrow>
          (case re_match_criterion expr of
             None \<Rightarrow> Inl AttributeError
           | Some m \<Rightarrow>
               and_then (m_group m 0) (\<lambda>tokenattribute_key.
               and_then (tokenattribute_branches m) (\<lambda>l.
               and_then (read_local (value_eq l)) (\<lambda>v.
               and_then (read_local (value_greater_than l)) (\<lambda>gt.
               and_then (read_local (value_less_than l)) (\<lambda>lt.
               and_then (build_tokenvalue_filter x tokenattribute_key v gt lt None None)
                 (\<lambda>tafilter. Inr (tokenattribute_key, tafilter)))))))))"


section \<open>Scanner and selector\<close>

text \<open>
  Output is a list of writes, each on one stream. The kind of a write is an annotation of
  the model: what the text is, not where it goes.
\<close>

datatype stream = Stdout | Stderr

datatype kind = Progress | Failure | Payload | Report

type_synonym out = "stream \<times> kind \<times> string"

definition print :: "kind \<Rightarrow> string \<Rightarrow> out" where
  "print k s = (Stdout, k, s @ [CHR 0x0A])"

definition stderr_write :: "kind \<Rightarrow> string \<Rightarrow> out" where
  "stderr_write k s = (Stderr, k, s)"

function show_nat :: "nat \<Rightarrow> string" where
  "show_nat n = (if n < 10 then [char_of (48 + n)]
                 else show_nat (n div 10) @ [char_of (48 + n mod 10)])"
  by pat_completeness auto
termination
  by (relation "measure id") auto

declare show_nat.simps [simp del]

definition py_lower :: "string \<Rightarrow> string" where
  "py_lower s = map (\<lambda>c. if is_upper c then char_of ((of_char c :: nat) + 32) else c) s"

definition py_upper :: "string \<Rightarrow> string" where
  "py_upper s = map (\<lambda>c. if is_lower c then char_of ((of_char c :: nat) - 32) else c) s"

text \<open>The arguments of \<^verbatim>\<open>_get_tokenlist\<close>.\<close>

record args =
  last_auth :: "string option"
  assigned :: "string option"
  active :: "string option"
  tokeninfo_key :: "string option"
  tokeninfo_value_filter :: "comparator list"
  tokenattribute :: "string option"
  tokenattribute_filter :: "comparator list"
  orphaned :: "string option"
  arg_tokentype :: "string option"
  arg_serial :: "string option"
  arg_description :: "string option"
  chunksize :: "nat option"
  has_not_tokeninfo_key :: "string option"
  has_tokeninfo_key :: "string option"

text \<open>
  The checks of the loop body, in the order of the source. An event of the trace is a
  check that ran, with what it gave: \<open>Inr True\<close> when the record passes it, \<open>Inr False\<close>
  when the record is skipped (\<^verbatim>\<open>continue\<close>), \<open>Inl\<close> when it raised.
\<close>

datatype check =
    Recency
  | SerialPattern
  | DescriptionPattern
  | HasNotKey
  | HasKey
  | TokeninfoLookup
  | TokeninfoComparator nat
  | AttributeLookup
  | AttributeComparator nat
  | OrphanState

type_synonym event = "check \<times> (error + bool)"

type_synonym checked = "event list \<times> (error + bool)"

definition performed :: "check \<Rightarrow> error + bool \<Rightarrow> checked" where
  "performed c r = ([(c, r)], r)"

definition not_run :: checked where
  "not_run = ([], Inr True)"

fun neg :: "error + bool \<Rightarrow> error + bool" where
  "neg (Inl e) = Inl e"
| "neg (Inr b) = Inr (\<not> b)"

text \<open>A check and the rest of the loop body: the rest runs only when the check passes.\<close>

definition then_check :: "checked \<Rightarrow> checked \<Rightarrow> checked" where
  "then_check c rest =
     (case c of
        (tr, Inr True) \<Rightarrow> (tr @ fst rest, snd rest)
      | (tr, r) \<Rightarrow> (tr, r))"

text \<open>\<^verbatim>\<open>token_obj.token.get(attribute)\<close>: a column that is NULL or unknown gives \<open>None\<close>.\<close>

definition token_get :: "token \<Rightarrow> string \<Rightarrow> pyval option" where
  "token_get t attr =
     (if attr = ''serial'' then Some (PStr (serial t))
      else if attr = ''description'' then Some (PStr (description t))
      else if attr = ''tokentype'' then Some (PStr (tokentype t))
      else map_of (columns t) attr)"

text \<open>\<^verbatim>\<open>all(comparator(value) for comparator in filter)\<close> stops at the first falsy result.\<close>

fun all_comparators :: "(nat \<Rightarrow> check) \<Rightarrow> nat \<Rightarrow> comparator list \<Rightarrow> pyval \<Rightarrow> checked" where
  "all_comparators ck i [] v = not_run"
| "all_comparators ck i (c # cs) v =
     then_check (performed (ck i) (c v)) (all_comparators ck (Suc i) cs v)"

definition check_last_auth :: "ext \<Rightarrow> args \<Rightarrow> token \<Rightarrow> checked" where
  "check_last_auth x a t =
     (case last_auth a of
        None \<Rightarrow> not_run
      | Some la \<Rightarrow>
          if la = [] then not_run else performed Recency (neg (check_last_auth_newer x t la)))"

definition check_serial :: "ext \<Rightarrow> args \<Rightarrow> token \<Rightarrow> checked" where
  "check_serial x a t =
     (case arg_serial a of
        None \<Rightarrow> not_run
      | Some p \<Rightarrow> if p = [] then not_run else performed SerialPattern (re_search x p (serial t)))"

definition check_description :: "ext \<Rightarrow> args \<Rightarrow> token \<Rightarrow> checked" where
  "check_description x a t =
     (case arg_description a of
        None \<Rightarrow> not_run
      | Some p \<Rightarrow>
          if p = [] then not_run else performed DescriptionPattern (re_search x p (description t)))"

definition check_has_not_key :: "args \<Rightarrow> token \<Rightarrow> checked" where
  "check_has_not_key a t =
     (case has_not_tokeninfo_key a of
        None \<Rightarrow> not_run
      | Some k \<Rightarrow>
          if k = [] then not_run else performed HasNotKey (Inr (map_of (tokeninfo t) k = None)))"

definition check_has_key :: "args \<Rightarrow> token \<Rightarrow> checked" where
  "check_has_key a t =
     (case has_tokeninfo_key a of
        None \<Rightarrow> not_run
      | Some k \<Rightarrow>
          if k = [] then not_run else performed HasKey (Inr (map_of (tokeninfo t) k \<noteq> None)))"

definition check_tokeninfo_value :: "args \<Rightarrow> token \<Rightarrow> checked" where
  "check_tokeninfo_value a t =
     (if tokeninfo_value_filter a \<noteq> [] \<and> truthy (tokeninfo_key a) then
        (case map_of (tokeninfo t) (the (tokeninfo_key a)) of
           None \<Rightarrow> performed TokeninfoLookup (Inr False)
         | Some v \<Rightarrow>
             then_check (performed TokeninfoLookup (Inr True))
               (all_comparators TokeninfoComparator 0 (tokeninfo_value_filter a) (PStr v)))
      else not_run)"

definition check_tokenattribute :: "args \<Rightarrow> token \<Rightarrow> checked" where
  "check_tokenattribute a t =
     (if tokenattribute_filter a \<noteq> [] \<and> truthy (tokenattribute a) then
        (case token_get t (the (tokenattribute a)) of
           None \<Rightarrow> performed AttributeLookup (Inr False)
         | Some v \<Rightarrow>
             then_check (performed AttributeLookup (Inr True))
               (all_comparators AttributeComparator 0 (tokenattribute_filter a) v))
      else not_run)"

text \<open>\<^verbatim>\<open>orphaned = orphaned or ""\<close>, then the two tests on \<^verbatim>\<open>orphaned.upper()\<close>.\<close>

definition orphaned_upper :: "args \<Rightarrow> string" where
  "orphaned_upper a = py_upper (case orphaned a of None \<Rightarrow> [] | Some s \<Rightarrow> s)"

definition check_orphaned_true :: "ext \<Rightarrow> args \<Rightarrow> token \<Rightarrow> checked" where
  "check_orphaned_true x a t =
     (if orphaned_upper a \<in> set [''1'', ''TRUE''] then performed OrphanState (is_orphaned x t)
      else not_run)"

definition check_orphaned_false :: "ext \<Rightarrow> args \<Rightarrow> token \<Rightarrow> checked" where
  "check_orphaned_false x a t =
     (if orphaned_upper a \<in> set [''0'', ''FALSE''] then performed OrphanState (neg (is_orphaned x t))
      else not_run)"

text \<open>The body of the inner loop, lines 295 to 328, for one record.\<close>

definition check_token :: "ext \<Rightarrow> args \<Rightarrow> token \<Rightarrow> checked" where
  "check_token x a t =
     then_check (check_last_auth x a t)
    (then_check (check_serial x a t)
    (then_check (check_description x a t)
    (then_check (check_has_not_key a t)
    (then_check (check_has_key a t)
    (then_check (check_tokeninfo_value a t)
    (then_check (check_tokenattribute a t)
    (then_check (check_orphaned_true x a t)
    (then_check (check_orphaned_false x a t) not_run))))))))"

definition progress :: "nat \<Rightarrow> nat \<Rightarrow> string \<Rightarrow> out" where
  "progress tok_count tok_found eol =
     stderr_write Progress
       (show_nat tok_count @ '' Tokens processed / '' @ show_nat tok_found @ '' Tokens found''
        @ eol)"

text \<open>
  The inner loop over one batch, with its counters and the list built so far. A check
  that raises ends the loop with the exception.
\<close>

fun token_loop ::
  "ext \<Rightarrow> args \<Rightarrow> token list \<Rightarrow> nat \<times> nat \<times> token list \<Rightarrow>
   out list \<times> (error + nat \<times> nat \<times> token list)"
where
  "token_loop x a [] st = ([], Inr st)"
| "token_loop x a (t # ts) (tok_count, tok_found, filtered_list) =
     (let w = progress tok_count tok_found [CHR 0x0D] in
      case snd (check_token x a t) of
        Inl e \<Rightarrow> ([w], Inl e)
      | Inr False \<Rightarrow>
          (case token_loop x a ts (tok_count + 1, tok_found, filtered_list) of
             (ws, r) \<Rightarrow> (w # ws, r))
      | Inr True \<Rightarrow>
          (case token_loop x a ts (tok_count + 1, tok_found + 1, filtered_list @ [t]) of
             (ws, r) \<Rightarrow> (w # ws, r)))"

definition filter_batch :: "ext \<Rightarrow> args \<Rightarrow> token list \<Rightarrow> out list \<times> (error + token list)" where
  "filter_batch x a tokenobj_list =
     (let w0 = stderr_write Progress (''++ Creating token object list.'' @ [CHR 0x0A]) in
      case token_loop x a tokenobj_list (0, 0, []) of
        (ws, Inl e) \<Rightarrow> (w0 # ws, Inl e)
      | (ws, Inr (tok_count, tok_found, filtered_list)) \<Rightarrow>
          (w0 # ws @
             [progress tok_count tok_found [CHR 0x0D, CHR 0x0A],
              stderr_write Progress (''++ Token object list created.'' @ [CHR 0x0A])],
           Inr filtered_list))"

text \<open>
  A generator that ends: what it wrote before each item it yields, the item, and the
  rest; or what it wrote before it raised.
\<close>

datatype 'a gen = Done | Yield "out list" 'a "'a gen" | Raise "out list" error

fun yielded :: "'a gen \<Rightarrow> 'a list" where
  "yielded Done = []"
| "yielded (Yield ws v g) = v # yielded g"
| "yielded (Raise ws e) = []"

fun raised :: "'a gen \<Rightarrow> error option" where
  "raised Done = None"
| "raised (Yield ws v g) = raised g"
| "raised (Raise ws e) = Some e"

fun gen_out :: "'a gen \<Rightarrow> out list" where
  "gen_out Done = []"
| "gen_out (Yield ws v g) = ws @ gen_out g"
| "gen_out (Raise ws e) = ws"

fun scan_batches :: "ext \<Rightarrow> args \<Rightarrow> token list list \<Rightarrow> token list gen" where
  "scan_batches x a [] = Done"
| "scan_batches x a (b # bs) =
     (case filter_batch x a b of
        (ws, Inl e) \<Rightarrow> Raise ws e
      | (ws, Inr filtered_list) \<Rightarrow> Yield ws filtered_list (scan_batches x a bs))"

function paginate :: "nat \<Rightarrow> 'a list \<Rightarrow> 'a list list" where
  "paginate k xs = (if k = 0 \<or> xs = [] then [] else take k xs # paginate k (drop k xs))"
  by pat_completeness auto
termination
  by (relation "measure (\<lambda>(k, xs). length xs)") auto

declare paginate.simps [simp del]

text \<open>
  Modelled from the spec: \<^verbatim>\<open>get_tokens_paginated_generator\<close> of
  \<^verbatim>\<open>privacyidea.lib.token\<close> is not part of the sources at hand. With a chunk size the
  scanner produces the structurally filtered result of the store as a sequence of
  batches of at most that many records each, in fetch order.
\<close>

definition get_tokens_paginated_generator ::
  "ext \<Rightarrow> string option \<Rightarrow> bool option \<Rightarrow> bool option \<Rightarrow> nat \<Rightarrow> token list list"
where
  "get_tokens_paginated_generator x tt act asg psize = paginate psize (get_tokens x tt act asg)"

definition filter_flag :: "string option \<Rightarrow> bool option" where
  "filter_flag v = map_option (\<lambda>s. py_lower s = ''true'') v"

definition get_tokenlist :: "ext \<Rightarrow> args \<Rightarrow> token list gen" where
  "get_tokenlist x a =
     (let filter_assigned = filter_flag (assigned a);
          filter_active = filter_flag (active a);
          iterable =
            (case chunksize a of
               Some k \<Rightarrow>
                 get_tokens_paginated_generator x (arg_tokentype a) filter_active
                   filter_assigned k
             | None \<Rightarrow> [get_tokens x (arg_tokentype a) filter_active filter_assigned])
      in scan_batches x a iterable)"


section \<open>Action dispatcher\<close>

text \<open>
  The operations of the store that the actions call, on a store state \<open>'st\<close>. An
  operation that raises leaves the state as it was. In the body of \<^verbatim>\<open>tokenrealms\<close> the
  name \<^verbatim>\<open>tokenrealms\<close> is the command itself, not an option text; what
  \<^verbatim>\<open>tokenrealms.split(",")\<close> gives on that object is \<open>tokenrealms_split\<close>.
\<close>

record 'st ops =
  enable_token :: "string \<Rightarrow> bool \<Rightarrow> 'st \<Rightarrow> error + 'st"
  remove_token :: "string \<Rightarrow> 'st \<Rightarrow> error + 'st"
  unassign_token :: "string \<Rightarrow> 'st \<Rightarrow> error + 'st"
  tok_set_description :: "token \<Rightarrow> string \<Rightarrow> 'st \<Rightarrow> error + 'st"
  tok_add_tokeninfo :: "token \<Rightarrow> string \<Rightarrow> string \<Rightarrow> 'st \<Rightarrow> error + 'st"
  tok_del_tokeninfo :: "token \<Rightarrow> string \<Rightarrow> 'st \<Rightarrow> error + 'st"
  tok_save :: "token \<Rightarrow> 'st \<Rightarrow> error + 'st"
  tok_set_realms :: "token \<Rightarrow> string list \<Rightarrow> 'st \<Rightarrow> error + 'st"
  tokenrealms_split :: "error + string list"

text \<open>
  What a run leaves: the store, the writes, and the exception that ended it, if any.
\<close>

type_synonym 'st run = "'st \<times> out list \<times> error option"

text \<open>
  The text of an exception. A built-in exception carries no message in the model; the
  name of its class stands for it.
\<close>

fun str_error :: "error \<Rightarrow> string" where
  "str_error ValueError = ''ValueError''"
| "str_error TypeError = ''TypeError''"
| "str_error IndexError = ''IndexError''"
| "str_error AttributeError = ''AttributeError''"
| "str_error UnboundLocalError = ''UnboundLocalError''"
| "str_error (ClickException m) = m"
| "str_error (OtherError m) = m"

fun split_on :: "char \<Rightarrow> string \<Rightarrow> string list" where
  "split_on sep [] = [[]]"
| "split_on sep (c # cs) =
     (if c = sep then [] # split_on sep cs
      else (case split_on sep cs of [] \<Rightarrow> [[c]] | w # ws \<Rightarrow> (c # w) # ws))"

fun join :: "string \<Rightarrow> string list \<Rightarrow> string" where
  "join sep [] = []"
| "join sep [w] = w"
| "join sep (w # ws) = w @ sep @ join sep ws"

text \<open>\<^verbatim>\<open>for tlist in generator: ...\<close>: the body runs on each batch as it is yielded.\<close>

fun for_each_batch ::
  "(token list \<Rightarrow> 'st \<Rightarrow> 'st run) \<Rightarrow> token list gen \<Rightarrow> 'st \<Rightarrow> 'st run"
where
  "for_each_batch body Done st = (st, [], None)"
| "for_each_batch body (Raise ws e) st = (st, ws, Some e)"
| "for_each_batch body (Yield ws tlist g) st =
     (case body tlist st of
        (st1, ws1, Some e) \<Rightarrow> (st1, ws @ ws1, Some e)
      | (st1, ws1, None) \<Rightarrow>
          (case for_each_batch body g st1 of (st2, ws2, r) \<Rightarrow> (st2, ws @ ws1 @ ws2, r)))"

text \<open>
  The loop of \<^verbatim>\<open>disable\<close>, \<^verbatim>\<open>delete\<close> and \<^verbatim>\<open>unassign\<close>: each record in its own
  \<^verbatim>\<open>try\<close>, with \<^verbatim>\<open>except Exception\<close> printing two lines.
\<close>

fun try_each ::
  "(token \<Rightarrow> 'st \<Rightarrow> error + 'st) \<Rightarrow> (token \<Rightarrow> string) \<Rightarrow> token list \<Rightarrow> 'st \<Rightarrow> 'st run"
where
  "try_each act msg [] st = (st, [], None)"
| "try_each act msg (token_obj # ts) st =
     (case act token_obj st of
        Inr st1 \<Rightarrow>
          (case try_each act msg ts st1 of
             (st2, ws, r) \<Rightarrow> (st2, print Report (msg token_obj) # ws, r))
      | Inl exx \<Rightarrow>
          (case try_each act msg ts st of
             (st2, ws, r) \<Rightarrow>
               (st2,
                print Failure (''Failed to process token '' @ serial token_obj @ ''.'')
                  # print Failure (str_error exx) # ws,
                r)))"

definition disable :: "'st ops \<Rightarrow> token list gen \<Rightarrow> 'st \<Rightarrow> 'st run" where
  "disable ops generator =
     for_each_batch
       (try_each (\<lambda>t. enable_token ops (serial t) False) (\<lambda>t. ''Disabling token '' @ serial t))
       generator"

definition delete :: "'st ops \<Rightarrow> token list gen \<Rightarrow> 'st \<Rightarrow> 'st run" where
  "delete ops generator =
     for_each_batch
       (try_each (\<lambda>t. remove_token ops (serial t)) (\<lambda>t. ''Deleting token '' @ serial t))
       generator"

definition unassign :: "'st ops \<Rightarrow> token list gen \<Rightarrow> 'st \<Rightarrow> 'st run" where
  "unassign ops generator =
     for_each_batch
       (try_each (\<lambda>t. unassign_token ops (serial t)) (\<lambda>t. ''Unassigning token '' @ serial t))
       generator"

definition py_str_list :: "string list \<Rightarrow> string" where
  "py_str_list xs = ''['' @ join '', '' (map (\<lambda>f. [CHR 0x27] @ f @ [CHR 0x27]) xs) @ '']''"

definition trealms :: "'st ops \<Rightarrow> error + string list" where
  "trealms ops =
     (case tokenrealms_split ops of
        Inl e \<Rightarrow> Inl e
      | Inr parts \<Rightarrow> Inr (map py_strip (filter (\<lambda>r. r \<noteq> []) parts)))"

definition tokenrealms :: "'st ops \<Rightarrow> token list gen \<Rightarrow> 'st \<Rightarrow> 'st run" where
  "tokenrealms ops generator =
     for_each_batch
       (try_each
          (\<lambda>t st. case trealms ops of Inl e \<Rightarrow> Inl e | Inr rs \<Rightarrow> tok_set_realms ops t rs st)
          (\<lambda>t. ''Setting realms of token '' @ serial t @ '' to ''
                @ py_str_list (case trealms ops of Inl e \<Rightarrow> [] | Inr rs \<Rightarrow> rs) @ ''.''))
       generator"

text \<open>\<^verbatim>\<open>set_description\<close>: the loop has no \<^verbatim>\<open>try\<close>.\<close>

fun set_description_batch :: "'st ops \<Rightarrow> string option \<Rightarrow> token list \<Rightarrow> 'st \<Rightarrow> 'st run" where
  "set_description_batch ops d [] st = (st, [], None)"
| "set_description_batch ops d (token_obj # ts) st =
     (if truthy d then
        (let w = print Report (''Setting description for token '' @ serial token_obj @ '': ''
                               @ the d) in
         case tok_set_description ops token_obj (the d) st of
           Inl e \<Rightarrow> (st, [w], Some e)
         | Inr st1 \<Rightarrow>
             (case tok_save ops token_obj st1 of
                Inl e \<Rightarrow> (st1, [w], Some e)
              | Inr st2 \<Rightarrow>
                  (case set_description_batch ops d ts st2 of
                     (st3, ws, r) \<Rightarrow> (st3, w # ws, r))))
      else set_description_batch ops d ts st)"

definition set_description :: "'st ops \<Rightarrow> string option \<Rightarrow> token list gen \<Rightarrow> 'st \<Rightarrow> 'st run" where
  "set_description ops d generator = for_each_batch (set_description_batch ops d) generator"

text \<open>
  \<^verbatim>\<open>set_tokeninfo\<close>: each item of the option is split at the colon, the first part
  the value and the second the key; an item with no colon
  raises \<^verbatim>\<open>IndexError\<close>. The option is split before the generator is consumed.
\<close>

fun set_tokeninfo_tokens :: "'st ops \<Rightarrow> string \<Rightarrow> string \<Rightarrow> token list \<Rightarrow> 'st \<Rightarrow> 'st run" where
  "set_tokeninfo_tokens ops ti_value ti_key [] st = (st, [], None)"
| "set_tokeninfo_tokens ops ti_value ti_key (token_obj # ts) st =
     (if ti_value \<noteq> [] \<and> ti_key \<noteq> [] then
        (let w = print Report (''Setting tokeninfo for token '' @ serial token_obj @ '': ''
                               @ ti_key @ ''='' @ ti_value) in
         case tok_add_tokeninfo ops token_obj ti_key ti_value st of
           Inl e \<Rightarrow> (st, [w], Some e)
         | Inr st1 \<Rightarrow>
             (case tok_save ops token_obj st1 of
                Inl e \<Rightarrow> (st1, [w], Some e)
              | Inr st2 \<Rightarrow>
                  (case set_tokeninfo_tokens ops ti_value ti_key ts st2 of
                     (st3, ws, r) \<Rightarrow> (st3, w # ws, r))))
      else set_tokeninfo_tokens ops ti_value ti_key ts st)"

fun set_tokeninfo_batch :: "'st ops \<Rightarrow> string list \<Rightarrow> token list \<Rightarrow> 'st \<Rightarrow> 'st run" where
  "set_tokeninfo_batch ops [] tlist st = (st, [], None)"
| "set_tokeninfo_batch ops (item # items) tlist st =
     (case split_on CHR '':'' item of
        x0 # x1 # _ \<Rightarrow>
          (case set_tokeninfo_tokens ops x0 x1 tlist st of
             (st1, ws1, Some e) \<Rightarrow> (st1, ws1, Some e)
           | (st1, ws1, None) \<Rightarrow>
               (case set_tokeninfo_batch ops items tlist st1 of
                  (st2, ws2, r) \<Rightarrow> (st2, ws1 @ ws2, r)))
      | _ \<Rightarrow> (st, [], Some IndexError))"

definition set_tokeninfo :: "'st ops \<Rightarrow> string option \<Rightarrow> token list gen \<Rightarrow> 'st \<Rightarrow> 'st run" where
  "set_tokeninfo ops tokeninfo_opt generator st =
     (case tokeninfo_opt of
        None \<Rightarrow> (st, [], Some AttributeError)
      | Some s \<Rightarrow> for_each_batch (set_tokeninfo_batch ops (split_on CHR '','' s)) generator st)"

fun delete_tokeninfo_tokens :: "'st ops \<Rightarrow> string \<Rightarrow> token list \<Rightarrow> 'st \<Rightarrow> 'st run" where
  "delete_tokeninfo_tokens ops item [] st = (st, [], None)"
| "delete_tokeninfo_tokens ops item (token_obj # ts) st =
     (if item \<noteq> [] then
        (let w = print Report (''Deleting tokeninfo for token '' @ serial token_obj @ '': ''
                               @ item) in
         case tok_del_tokeninfo ops token_obj item st of
           Inl e \<Rightarrow> (st, [w], Some e)
         | Inr st1 \<Rightarrow>
             (case tok_save ops token_obj st1 of
                Inl e \<Rightarrow> (st1, [w], Some e)
              | Inr st2 \<Rightarrow>
                  (case delete_tokeninfo_tokens ops item ts st2 of
                     (st3, ws, r) \<Rightarrow> (st3, w # ws, r))))
      else delete_tokeninfo_tokens ops item ts st)"

fun delete_tokeninfo_batch :: "'st ops \<Rightarrow> string list \<Rightarrow> token list \<Rightarrow> 'st \<Rightarrow> 'st run" where
  "delete_tokeninfo_batch ops [] tlist st = (st, [], None)"
| "delete_tokeninfo_batch ops (item # items) tlist st =
     (case delete_tokeninfo_tokens ops item tlist st of
        (st1, ws1, Some e) \<Rightarrow> (st1, ws1, Some e)
      | (st1, ws1, None) \<Rightarrow>
          (case delete_tokeninfo_batch ops items tlist st1 of
             (st2, ws2, r) \<Rightarrow> (st2, ws1 @ ws2, r)))"

definition delete_tokeninfo :: "'st ops \<Rightarrow> string option \<Rightarrow> token list gen \<Rightarrow> 'st \<Rightarrow> 'st run" where
  "delete_tokeninfo ops tokeninfo_opt generator st =
     (case tokeninfo_opt of
        None \<Rightarrow> (st, [], Some AttributeError)
      | Some s \<Rightarrow> for_each_batch (delete_tokeninfo_batch ops (split_on CHR '','' s)) generator st)"

text \<open>
  \<^verbatim>\<open>listuser\<close> without \<^verbatim>\<open>--sum\<close>: \<^verbatim>\<open>export_token_data\<close> builds one row for each record
  of the batch, then the rows are printed. A record whose user cannot be determined, or
  that has no user while attributes are asked for, gets a notice on the error stream
  and a marker in its row.
\<close>

definition info_get :: "user \<Rightarrow> string \<Rightarrow> string" where
  "info_get u k = (case map_of (info u) k of None \<Rightarrow> [] | Some v \<Rightarrow> v)"

definition quoted :: "string \<Rightarrow> string" where
  "quoted f = [CHR 0x27] @ f @ [CHR 0x27]"

definition failed_user :: "token \<Rightarrow> out" where
  "failed_user token_obj =
     stderr_write Failure
       (''Failed to determine user for token '' @ serial token_obj @ ''.'' @ [CHR 0x0A])"

definition token_row :: "ext \<Rightarrow> string option \<Rightarrow> token \<Rightarrow> out list \<times> string list" where
  "token_row x attributes token_obj =
     (let token_data = [serial token_obj, tokentype token_obj] in
      case token_user x token_obj of
        Inl e \<Rightarrow> ([failed_user token_obj], token_data @ [''**failed to resolve user**''])
      | Inr None \<Rightarrow>
          if truthy attributes
          then ([failed_user token_obj], token_data @ [''**failed to resolve user**''])
          else ([], token_data)
      | Inr (Some u) \<Rightarrow>
          (let d = token_data @
                   [info_get u ''username'', info_get u ''givenname'', info_get u ''surname'',
                    uid u, resolver u, realm u] in
           if truthy attributes
           then ([], d @ map (info_get u) (split_on CHR '','' (the attributes)))
           else ([], d)))"

definition export_token_data ::
  "ext \<Rightarrow> string option \<Rightarrow> token list \<Rightarrow> out list \<times> string list list"
where
  "export_token_data x attributes token_list =
     (concat (map (\<lambda>t. fst (token_row x attributes t)) token_list),
      map (\<lambda>t. snd (token_row x attributes t)) token_list)"

definition print_row :: "string list \<Rightarrow> out" where
  "print_row row = print Payload (join '','' (map quoted row))"

text \<open>
  \<^verbatim>\<open>listuser --sum\<close>: \<^verbatim>\<open>export_user_data\<close> groups the serials of a batch by the
  text that identifies the user, in the order in which the users first appear. Its
  local variable \<^verbatim>\<open>user\<close> keeps the value of the record before when the user of a
  record cannot be determined, and is unbound when that happens at the first record.
\<close>

definition user_text :: "user option \<Rightarrow> string option \<Rightarrow> string" where
  "user_text u attributes =
     (case u of
        None \<Rightarrow> ''N/A'' @ concat (replicate 5 '', '')
      | Some usr \<Rightarrow>
          join '','' (map quoted [info_get usr ''username'', info_get usr ''givenname'',
                                  info_get usr ''surname'', uid usr, resolver usr, realm usr])
          @ (if truthy attributes
             then concat (map (\<lambda>att. '','' @ quoted (info_get usr att))
                              (split_on CHR '','' (the attributes)))
             else []))"

definition users_add ::
  "(string \<times> string list) list \<Rightarrow> string \<Rightarrow> string \<Rightarrow> (string \<times> string list) list"
where
  "users_add users k v =
     (if k \<in> fst ` set users
      then map (\<lambda>(a, vs). if a = k then (a, vs @ [v]) else (a, vs)) users
      else users @ [(k, [v])])"

fun export_user_data ::
  "ext \<Rightarrow> string option \<Rightarrow> token list \<Rightarrow> user option option \<Rightarrow> (string \<times> string list) list \<Rightarrow>
   out list \<times> (error + (string \<times> string list) list)"
where
  "export_user_data x attributes [] user_var users = ([], Inr users)"
| "export_user_data x attributes (token_obj # ts) user_var users =
     (case (case token_user x token_obj of
              Inl e \<Rightarrow> ([failed_user token_obj], user_var)
            | Inr u \<Rightarrow> ([], Some u)) of
        (ws, None) \<Rightarrow> (ws, Inl UnboundLocalError)
      | (ws, Some u) \<Rightarrow>
          (case export_user_data x attributes ts (Some u)
                  (users_add users (user_text u attributes) (serial token_obj)) of
             (ws2, r) \<Rightarrow> (ws @ ws2, r)))"

definition print_user :: "string \<times> string list \<Rightarrow> out" where
  "print_user p = print Payload (fst p @ '','' @ show_nat (length (snd p)))"

definition listuser ::
  "ext \<Rightarrow> bool \<Rightarrow> string option \<Rightarrow> token list gen \<Rightarrow> 'st \<Rightarrow> 'st run"
where
  "listuser x sum_tokens attributes generator =
     for_each_batch
       (\<lambda>tlist st.
          if \<not> sum_tokens then
            (case export_token_data x attributes tlist of
               (ws, tokens) \<Rightarrow> (st, ws @ map print_row tokens, None))
          else
            (case export_user_data x attributes tlist None [] of
               (ws, Inl e) \<Rightarrow> (st, ws, Some e)
             | (ws, Inr users) \<Rightarrow> (st, ws @ map print_user users, None)))
       generator"

text \<open>
  \<^verbatim>\<open>export\<close>. The format is chosen by the identity tests \<^verbatim>\<open>export_format is 'csv'\<close> and
  \<^verbatim>\<open>export_format is 'yaml'\<close>, whose outcomes \<open>is_csv\<close> and \<open>is_yaml\<close> the text of the
  option does not fix. The row format tests \<^verbatim>\<open>type == "totp"\<close> on the built-in
  \<^verbatim>\<open>type\<close>, which is never equal, so every row has five fields. The local variable
  \<^verbatim>\<open>token_dict\<close> of the YAML branch lives through the whole run; the handler of a
  failed record reads it, and it is unbound when the first record fails.
\<close>

definition dict_get_str :: "pydict \<Rightarrow> string \<Rightarrow> string" where
  "dict_get_str d k = (case map_of d k of None \<Rightarrow> ''None'' | Some v \<Rightarrow> v)"

definition dict_set :: "pydict \<Rightarrow> string \<Rightarrow> string \<Rightarrow> pydict" where
  "dict_set d k v =
     (if k \<in> fst ` set d then map (\<lambda>(a, b). if a = k then (a, v) else (a, b)) d
      else d @ [(k, v)])"

definition owner_of :: "ext \<Rightarrow> token \<Rightarrow> error + string" where
  "owner_of x tokenobj =
     (case token_user x tokenobj of
        Inl e \<Rightarrow> Inl e
      | Inr None \<Rightarrow> Inr ''n/a''
      | Inr (Some u) \<Rightarrow> Inr (login u @ ''@'' @ realm u))"

fun export_csv :: "ext \<Rightarrow> string option \<Rightarrow> token list \<Rightarrow> out list \<times> error option" where
  "export_csv x b32 [] = ([], None)"
| "export_csv x b32 (tokenobj # ts) =
     (if py_lower (tokentype tokenobj) \<notin> set [''totp'', ''hotp''] then export_csv x b32 ts
      else
        (case to_dict x tokenobj b32 of
           Inl e \<Rightarrow> ([], Some e)
         | Inr token_dict \<Rightarrow>
             (case owner_of x tokenobj of
                Inl e \<Rightarrow> ([], Some e)
              | Inr owner \<Rightarrow>
                  (case export_csv x b32 ts of
                     (ws, r) \<Rightarrow>
                       (print Payload
                          (join '', '' [owner, dict_get_str token_dict ''serial'',
                                        dict_get_str token_dict ''otpkey'',
                                        dict_get_str token_dict ''type'',
                                        dict_get_str token_dict ''otplen'']) # ws,
                        r)))))"

definition failed_export :: "pydict \<Rightarrow> out" where
  "failed_export token_dict =
     stderr_write Failure
       ([CHR 0x0A] @ ''Failed to export token '' @ dict_get_str token_dict ''serial'' @ ''.''
        @ [CHR 0x0A])"

fun export_yaml ::
  "ext \<Rightarrow> string option \<Rightarrow> token list \<Rightarrow> pydict option \<Rightarrow> pydict list \<Rightarrow>
   out list \<times> (error + pydict option \<times> pydict list)"
where
  "export_yaml x b32 [] token_dict token_list = ([], Inr (token_dict, token_list))"
| "export_yaml x b32 (tokenobj # ts) token_dict token_list =
     (case (case to_dict x tokenobj b32 of
              Inl e \<Rightarrow> (token_dict, False)
            | Inr d \<Rightarrow>
                (case owner_of x tokenobj of
                   Inl e \<Rightarrow> (Some d, False)
                 | Inr owner \<Rightarrow> (Some (dict_set d ''owner'' owner), True))) of
        (Some d, True) \<Rightarrow> export_yaml x b32 ts (Some d) (token_list @ [d])
      | (None, True) \<Rightarrow> export_yaml x b32 ts None token_list
      | (None, False) \<Rightarrow> ([], Inl UnboundLocalError)
      | (Some d, False) \<Rightarrow>
          (case export_yaml x b32 ts (Some d) token_list of
             (ws, r) \<Rightarrow> (failed_export d # ws, r)))"

definition export_batch ::
  "ext \<Rightarrow> bool \<Rightarrow> bool \<Rightarrow> string option \<Rightarrow> token list \<Rightarrow> pydict option \<Rightarrow> pydict option run"
where
  "export_batch x is_csv is_yaml b32 tlist token_dict =
     (if is_csv then
        (case export_csv x b32 tlist of (ws, r) \<Rightarrow> (token_dict, ws, r))
      else if is_yaml then
        (case export_yaml x b32 tlist token_dict [] of
           (ws, Inl e) \<Rightarrow> (token_dict, ws, Some e)
         | (ws, Inr (td, token_list)) \<Rightarrow>
             (td, ws @ [print Payload (yaml_safe_dump x token_list)], None))
      else
        (case export_pskc x tlist of
           Inl e \<Rightarrow> (token_dict, [], Some e)
         | Inr (key, token_num, soup) \<Rightarrow>
             (token_dict,
              [stderr_write Progress
                 ([CHR 0x0A] @ show_nat token_num @ '' tokens exported.'' @ [CHR 0x0A]),
               stderr_write Progress
                 ([CHR 0x0A] @ ''This is the AES encryption key of the token seeds.''
                  @ [CHR 0x0A] @ ''You need this key to import the tokens again:''
                  @ [CHR 0x0A, CHR 0x0A, CHR 0x09] @ key @ [CHR 0x0A, CHR 0x0A]),
               print Payload soup],
              None)))"

definition export ::
  "ext \<Rightarrow> bool \<Rightarrow> bool \<Rightarrow> string option \<Rightarrow> token list gen \<Rightarrow> pydict option run"
where
  "export x is_csv is_yaml b32 generator =
     for_each_batch (export_batch x is_csv is_yaml b32) generator None"

section \<open>Properties of the selector, stated\<close>

text \<open>A record matches when every check of the loop body lets it through.\<close>

definition matches :: "ext \<Rightarrow> args \<Rightarrow> token \<Rightarrow> bool" where
  "matches x a t = (snd (check_token x a t) = Inr True)"

text \<open>
  The position of a check in the order recency, serial pattern, description pattern,
  tokeninfo-key presence or absence, value filter, orphan state.
\<close>

fun stage :: "check \<Rightarrow> nat" where
  "stage Recency = 0"
| "stage SerialPattern = 1"
| "stage DescriptionPattern = 2"
| "stage HasNotKey = 3"
| "stage HasKey = 3"
| "stage TokeninfoLookup = 4"
| "stage (TokeninfoComparator i) = 4"
| "stage AttributeLookup = 4"
| "stage (AttributeComparator i) = 4"
| "stage OrphanState = 5"

text \<open>The instant of an aware \<^verbatim>\<open>datetime\<close>; a naive one has none.\<close>

definition instant :: "datetime \<Rightarrow> int option" where
  "instant d = map_option (\<lambda>off. wall d - off) (tzinfo d)"

text \<open>
  A write is well routed when text of kind progress or failure is on the error stream
  and nothing else is, so that the standard output stream carries only the payload
  and the reports of the changes that an action made.
\<close>

fun well_routed :: "out \<Rightarrow> bool" where
  "well_routed (Stderr, k, s) = (k = Progress \<or> k = Failure)"
| "well_routed (Stdout, k, s) = (k = Payload \<or> k = Report)"

text \<open>
  A write of a mutating action on the standard output stream: the report of a change
  or the failure diagnostic of a record.
\<close>

definition action_write :: "out \<Rightarrow> bool" where
  "action_write w = (fst w = Stdout \<and> (fst (snd w) = Report \<or> fst (snd w) = Failure))"

text \<open>A list of events whose stages lie between \<open>lo\<close> and \<open>hi\<close> and never decrease.\<close>

definition staged :: "nat \<Rightarrow> nat \<Rightarrow> event list \<Rightarrow> bool" where
  "staged lo hi es = (sorted (map (stage \<circ> fst) es) \<and>
                      (\<forall>ev \<in> set es. lo \<le> stage (fst ev) \<and> stage (fst ev) \<le> hi))"


text \<open>
  The checks that the options call for on one record, in the order recency, serial
  pattern, description pattern, tokeninfo-key absence and presence, the filter on the
  value of the tokeninfo key, the filter on the value of the token attribute, orphan
  state: each with what it gives, whether or not an earlier one has failed. A value
  filter is the lookup of the value and, when there is a value, every comparator of the
  filter applied to it.
\<close>

fun comparator_events :: "(nat \<Rightarrow> check) \<Rightarrow> nat \<Rightarrow> comparator list \<Rightarrow> pyval \<Rightarrow> event list" where
  "comparator_events ck i [] v = []"
| "comparator_events ck i (c # cs) v = (ck i, c v) # comparator_events ck (Suc i) cs v"

definition selector_conditions :: "ext \<Rightarrow> args \<Rightarrow> token \<Rightarrow> event list" where
  "selector_conditions x a t =
     (if truthy (last_auth a)
      then [(Recency, neg (check_last_auth_newer x t (the (last_auth a))))] else [])
     @ (if truthy (arg_serial a)
        then [(SerialPattern, re_search x (the (arg_serial a)) (serial t))] else [])
     @ (if truthy (arg_description a)
        then [(DescriptionPattern, re_search x (the (arg_description a)) (description t))]
        else [])
     @ (if truthy (has_not_tokeninfo_key a)
        then [(HasNotKey, Inr (the (has_not_tokeninfo_key a) \<notin> fst ` set (tokeninfo t)))]
        else [])
     @ (if truthy (has_tokeninfo_key a)
        then [(HasKey, Inr (the (has_tokeninfo_key a) \<in> fst ` set (tokeninfo t)))] else [])
     @ (if tokeninfo_value_filter a \<noteq> [] \<and> truthy (tokeninfo_key a) then
          (case map_of (tokeninfo t) (the (tokeninfo_key a)) of
             None \<Rightarrow> [(TokeninfoLookup, Inr False)]
           | Some v \<Rightarrow>
               (TokeninfoLookup, Inr True)
                 # comparator_events TokeninfoComparator 0 (tokeninfo_value_filter a) (PStr v))
        else [])
     @ (if tokenattribute_filter a \<noteq> [] \<and> truthy (tokenattribute a) then
          (case token_get t (the (tokenattribute a)) of
             None \<Rightarrow> [(AttributeLookup, Inr False)]
           | Some v \<Rightarrow>
               (AttributeLookup, Inr True)
                 # comparator_events AttributeComparator 0 (tokenattribute_filter a) v)
        else [])
     @ (if orphaned_upper a \<in> set [''1'', ''TRUE'']
        then [(OrphanState, is_orphaned x t)] else [])
     @ (if orphaned_upper a \<in> set [''0'', ''FALSE'']
        then [(OrphanState, neg (is_orphaned x t))] else [])"

text \<open>
  Checking in order with the first failing check excluding the record: the events up to
  and including the first one that is not a pass, and the result.
\<close>

fun first_failing :: "event list \<Rightarrow> checked" where
  "first_failing [] = ([], Inr True)"
| "first_failing ((c, r) # es) =
     (if r = Inr True then (case first_failing es of (tr, res) \<Rightarrow> ((c, r) # tr, res))
      else ([(c, r)], r))"

text \<open>A write of the scan: progress text on the error stream.\<close>

definition scan_write :: "out \<Rightarrow> bool" where
  "scan_write w = (fst w = Stderr \<and> fst (snd w) = Progress)"

text \<open>
  What the trace of a check, or of a sequence of checks, looks like when the stages of
  its events lie between \<open>lo\<close> and \<open>hi\<close>: the stages never decrease, every event but
  the last is a pass, a passing result has only passes, and any other result is the
  outcome of the last event.
\<close>

definition orderly :: "nat \<Rightarrow> nat \<Rightarrow> checked \<Rightarrow> bool" where
  "orderly lo hi c =
     (sorted (map (stage \<circ> fst) (fst c)) \<and>
      (\<forall>ev \<in> set (fst c). lo \<le> stage (fst ev) \<and> stage (fst ev) \<le> hi) \<and>
      (\<forall>ev \<in> set (butlast (fst c)). snd ev = Inr True) \<and>
      (snd c = Inr True \<longrightarrow> (\<forall>ev \<in> set (fst c). snd ev = Inr True)) \<and>
      (snd c \<noteq> Inr True \<longrightarrow> fst c \<noteq> [] \<and> snd (last (fst c)) = snd c))"

section \<open>Sample inputs\<close>

text \<open>
  Three records, two with a description starting with \<^verbatim>\<open>temp\<close>, and collaborators that
  behave as the libraries do on the strings used below: the search handles a literal
  pattern with an optional leading anchor, the date parser knows three strings, the
  local zone is UTC. With \<^verbatim>\<open>tzinfos=tzutc\<close> the parser calls the class \<^verbatim>\<open>tzutc\<close> with
  the zone name and offset of a text that has parsed, which raises \<^verbatim>\<open>TypeError\<close>.
\<close>

definition tokA1 :: token where
  "tokA1 = \<lparr>serial = ''A1'', description = ''temp-a'', tokentype = ''hotp'',
            tokeninfo = [(''last_auth'', ''2021-06-01T00:00:00+00:00''), (''count_auth'', ''7'')],
            columns = [(''count'', PInt 7), (''active'', PBool True)]\<rparr>"

definition tokA2 :: token where
  "tokA2 = \<lparr>serial = ''A2'', description = ''temp-a'', tokentype = ''totp'',
            tokeninfo = [(''last_auth'', ''2019-05-01T00:00:00+00:00'')],
            columns = [(''count'', PInt 3), (''active'', PBool True)]\<rparr>"

definition tokB1 :: token where
  "tokB1 = \<lparr>serial = ''B1'', description = ''perm-b'', tokentype = ''hotp'',
            tokeninfo = [], columns = [(''active'', PBool False)]\<rparr>"

definition sample_search :: "string \<Rightarrow> string \<Rightarrow> error + bool" where
  "sample_search p s =
     (case p of
        [] \<Rightarrow> Inr True
      | c # q \<Rightarrow>
          if c = CHR ''^'' then Inr (take (length q) s = q)
          else Inr (list_ex (\<lambda>k. take (length p) (drop k s) = p) [0..<Suc (length s)]))"

definition sample_parse :: "pyval \<Rightarrow> error + datetime" where
  "sample_parse v =
     (case v of
        PStr s \<Rightarrow>
          if s = ''2021-06-01T00:00:00+00:00''
          then Inr \<lparr>wall = 1622505600000000, tzinfo = Some 0\<rparr>
          else if s = ''2019-05-01T00:00:00+00:00''
          then Inr \<lparr>wall = 1556668800000000, tzinfo = Some 0\<rparr>
          else if s = ''2020-01-01''
          then Inr \<lparr>wall = 1577836800000000, tzinfo = None\<rparr>
          else Inl ValueError
      | _ \<Rightarrow> Inl TypeError)"

definition sample_ext :: ext where
  "sample_ext =
     \<lparr>re_search = sample_search,
      parser_parse = sample_parse,
      parser_parse_tzutc =
        (\<lambda>v. case sample_parse v of Inl e \<Rightarrow> Inl e | Inr d \<Rightarrow> Inl TypeError),
      parse_legacy_time = (\<lambda>v. case v of PStr s \<Rightarrow> Inr s | _ \<Rightarrow> Inl TypeError),
      tzlocal_utcoffset = (\<lambda>w. 0),
      LASTAUTH = ''last_auth'',
      get_tokens = (\<lambda>tt act asg.
        filter (\<lambda>t. tt = None \<or> tt = Some (tokentype t)) [tokA1, tokA2, tokB1]),
      check_last_auth_newer = (\<lambda>t la. Inr (serial t = ''B1'')),
      is_orphaned = (\<lambda>t. Inr False),
      token_user = (\<lambda>t. Inr None),
      to_dict = (\<lambda>t b32. Inr [(''serial'', serial t), (''type'', tokentype t),
                              (''otpkey'', ''3132''), (''otplen'', ''6'')]),
      yaml_safe_dump =
        (\<lambda>ds. concat (map (\<lambda>d. ''- serial: '' @ dict_get_str d ''serial'' @ [CHR 0x0A]) ds)),
      export_pskc = (\<lambda>ts. Inr (''00ff'', length ts, ''<KeyContainer/>''))\<rparr>"

definition sample_args :: args where
  "sample_args =
     \<lparr>last_auth = None, assigned = None, active = None, tokeninfo_key = None,
      tokeninfo_value_filter = [], tokenattribute = None, tokenattribute_filter = [],
      orphaned = None, arg_tokentype = None, arg_serial = None,
      arg_description = Some ''^temp'', chunksize = None,
      has_not_tokeninfo_key = None, has_tokeninfo_key = None\<rparr>"


text \<open>Arguments that put every check of the loop body to work.\<close>

definition sample_gt5 :: comparator where
  "sample_gt5 =
     (case compare_greater_than ''count_auth'' ''5'' of Inr c \<Rightarrow> c | Inl e \<Rightarrow> (\<lambda>v. Inl e))"

definition sample_lt10 :: comparator where
  "sample_lt10 =
     (case compare_less_than ''count'' ''10'' of Inr c \<Rightarrow> c | Inl e \<Rightarrow> (\<lambda>v. Inl e))"

definition sample_args_full :: args where
  "sample_args_full =
     \<lparr>last_auth = Some ''7d'', assigned = None, active = None,
      tokeninfo_key = Some ''count_auth'',
      tokeninfo_value_filter = [sample_gt5],
      tokenattribute = Some ''count'',
      tokenattribute_filter = [sample_lt10],
      orphaned = Some ''false'', arg_tokentype = None, arg_serial = Some ''A'',
      arg_description = Some ''^temp'', chunksize = None,
      has_not_tokeninfo_key = None, has_tokeninfo_key = Some ''last_auth''\<rparr>"

text \<open>Arguments with a filter on the token attribute \<^verbatim>\<open>count\<close> and nothing else.\<close>

definition sample_args_attribute :: args where
  "sample_args_attribute =
     \<lparr>last_auth = None, assigned = None, active = None, tokeninfo_key = None,
      tokeninfo_value_filter = [], tokenattribute = Some ''count'',
      tokenattribute_filter = [sample_lt10], orphaned = None, arg_tokentype = None,
      arg_serial = None, arg_description = None, chunksize = None,
      has_not_tokeninfo_key = None, has_tokeninfo_key = None\<rparr>"

text \<open>A store whose operations fail on the record \<^verbatim>\<open>A1\<close>.\<close>

definition sample_ops :: "unit ops" where
  "sample_ops =
     \<lparr>enable_token = (\<lambda>s en st. if s = ''A1'' then Inl (OtherError ''database is locked'') else Inr st),
      remove_token = (\<lambda>s st. if s = ''A1'' then Inl (OtherError ''database is locked'') else Inr st),
      unassign_token = (\<lambda>s st. if s = ''A1'' then Inl (OtherError ''database is locked'') else Inr st),
      tok_set_description = (\<lambda>t d st. Inr st),
      tok_add_tokeninfo = (\<lambda>t k v st. Inr st),
      tok_del_tokeninfo = (\<lambda>t k st. Inr st),
      tok_save = (\<lambda>t st. if serial t = ''A1'' then Inl (OtherError ''database is locked'') else Inr st),
      tok_set_realms = (\<lambda>t rs st. Inr st),
      tokenrealms_split = Inl AttributeError\<rparr>"

text \<open>
  A record whose last authentication is stored without a zone, a store that holds it
  after the record \<^verbatim>\<open>A1\<close>, and a filter for last authentications after a date.
\<close>

definition tokC1 :: token where
  "tokC1 = \<lparr>serial = ''C1'', description = ''temp-c'', tokentype = ''hotp'',
            tokeninfo = [(''last_auth'', ''2020-01-01'')], columns = []\<rparr>"

definition sample_after :: comparator where
  "sample_after =
     (case compare_after sample_ext ''last_auth'' ''2020-01-01'' of
        Inr c \<Rightarrow> c | Inl e \<Rightarrow> (\<lambda>v. Inl e))"

definition sample_ext_legacy :: ext where
  "sample_ext_legacy = sample_ext\<lparr>get_tokens := (\<lambda>tt act asg. [tokA1, tokC1])\<rparr>"

definition sample_args_after :: args where
  "sample_args_after =
     \<lparr>last_auth = None, assigned = None, active = None, tokeninfo_key = Some ''last_auth'',
      tokeninfo_value_filter = [sample_after], tokenattribute = None,
      tokenattribute_filter = [], orphaned = None, arg_tokentype = None, arg_serial = None,
      arg_description = None, chunksize = None,
      has_not_tokeninfo_key = None, has_tokeninfo_key = None\<rparr>"

section \<open>Numeric comparators\<close>

lemma py_int_raises_ValueError: "py_int v = Inl e \<Longrightarrow> e = ValueError"
  by (cases v) (auto split: option.splits)

text \<open>
  Claim C4. When the operand \<open>v\<close> parses as the integer \<open>n\<close>, both comparators are built,
  and on every field value \<open>fv\<close> the greater-than predicate returns whether
  \<open>int(fv) > n\<close> and the less-than predicate whether \<open>int(fv) < n\<close> when \<open>fv\<close> converts to
  an integer, and both return false, without raising, when it does not.
\<close>

theorem numeric_comparators_correct:
  assumes "py_int_str v = Some n"
  shows "\<exists>gt lt. compare_greater_than k v = Inr gt \<and> compare_less_than k v = Inr lt \<and>
     (\<forall>fv. gt fv = Inr (case py_int fv of Inr m \<Rightarrow> m > n | Inl _ \<Rightarrow> False) \<and>
           lt fv = Inr (case py_int fv of Inr m \<Rightarrow> m < n | Inl _ \<Rightarrow> False))"
  using assms
  by (auto simp: compare_greater_than_def compare_less_than_def try_convert_to_integer_def
      split: sum.splits error.splits dest: py_int_raises_ValueError)

lemmas int_defs = py_int_str_def int_strip_def int_isspace_def max_str_digits_def is_digit_def
  digit_val_def

lemmas check_defs_full = check_token_def check_last_auth_def check_serial_def
  check_description_def check_has_not_key_def check_has_key_def check_tokeninfo_value_def
  check_tokenattribute_def check_orphaned_true_def check_orphaned_false_def
  then_check_def performed_def not_run_def


theorem numeric_comparators_correct_witness:
  "py_int_str ''5'' = Some 5 \<and>
   (\<exists>gt lt. compare_greater_than ''count'' ''5'' = Inr gt \<and>
            compare_less_than ''count'' ''5'' = Inr lt \<and>
            gt (PStr ''7'') = Inr True \<and> lt (PStr ''7'') = Inr False \<and>
            gt (PStr ''abc'') = Inr False \<and> lt (PStr ''abc'') = Inr False \<and>
            gt (PInt 3) = Inr False \<and> lt (PInt 3) = Inr True \<and>
            gt (PStr [CHR 0x1F, CHR ''7'']) = Inr False)"
proof -
  have h: "py_int_str ''5'' = Some 5" by (simp add: int_defs)
  from numeric_comparators_correct[OF h, of "''count''"] obtain gt lt where
    g: "compare_greater_than ''count'' ''5'' = Inr gt" and
    l: "compare_less_than ''count'' ''5'' = Inr lt" and
    a: "\<And>fv. gt fv = Inr (case py_int fv of Inr m \<Rightarrow> m > 5 | Inl _ \<Rightarrow> False)" and
    b: "\<And>fv. lt fv = Inr (case py_int fv of Inr m \<Rightarrow> m < 5 | Inl _ \<Rightarrow> False)"
    by blast
  have "py_int (PStr ''7'') = Inr 7" and "py_int (PStr ''abc'') = Inl ValueError"
    and "py_int (PStr [CHR 0x1F, CHR ''7'']) = Inl ValueError"
    by (simp_all add: int_defs)
  with a b have "gt (PStr ''7'') = Inr True" "lt (PStr ''7'') = Inr False"
    "gt (PStr ''abc'') = Inr False" "lt (PStr ''abc'') = Inr False"
    "gt (PInt 3) = Inr False" "lt (PInt 3) = Inr True"
    "gt (PStr [CHR 0x1F, CHR ''7'']) = Inr False"
    by simp_all
  with h g l show ?thesis by blast
qed

section \<open>The scan loop\<close>

lemma token_loop_Inr:
  "token_loop x a ts (c, f, fl) = (ws, Inr (c', f', fl')) \<Longrightarrow>
     fl' = fl @ filter (matches x a) ts \<and> (\<forall>t \<in> set ts. \<exists>b. snd (check_token x a t) = Inr b)"
proof (induction ts arbitrary: c f fl ws)
  case Nil
  then show ?case by simp
next
  case (Cons t ts)
  show ?case
  proof (cases "snd (check_token x a t)")
    case (Inl e)
    with Cons.prems show ?thesis by simp
  next
    case (Inr b)
    show ?thesis
    proof (cases b)
      case True
      with Inr Cons.prems obtain ws' where
        "token_loop x a ts (c + 1, f + 1, fl @ [t]) = (ws', Inr (c', f', fl'))"
        by (auto split: prod.splits)
      moreover have "matches x a t" using Inr True by (simp add: matches_def)
      ultimately show ?thesis using Cons.IH Inr by fastforce
    next
      case False
      with Inr Cons.prems obtain ws' where
        "token_loop x a ts (c + 1, f, fl) = (ws', Inr (c', f', fl'))"
        by (auto split: prod.splits)
      moreover have "\<not> matches x a t" using Inr False by (simp add: matches_def)
      ultimately show ?thesis using Cons.IH Inr by fastforce
    qed
  qed
qed

lemma token_loop_total:
  "\<forall>t \<in> set ts. \<exists>b. snd (check_token x a t) = Inr b \<Longrightarrow>
   \<exists>ws c' f'. token_loop x a ts (c, f, fl) = (ws, Inr (c', f', fl @ filter (matches x a) ts))"
proof (induction ts arbitrary: c f fl)
  case Nil
  then show ?case by simp
next
  case (Cons t ts)
  then obtain b where b: "snd (check_token x a t) = Inr b" by auto
  show ?case
  proof (cases b)
    case True
    from Cons.IH[of "c + 1" "f + 1" "fl @ [t]"] Cons.prems obtain ws c' f' where
      "token_loop x a ts (c + 1, f + 1, fl @ [t]) = (ws, Inr (c', f', (fl @ [t]) @ filter (matches x a) ts))"
      by auto
    moreover have "matches x a t" using b True by (simp add: matches_def)
    ultimately show ?thesis using b True by simp
  next
    case False
    from Cons.IH[of "c + 1" f fl] Cons.prems obtain ws c' f' where
      "token_loop x a ts (c + 1, f, fl) = (ws, Inr (c', f', fl @ filter (matches x a) ts))"
      by auto
    moreover have "\<not> matches x a t" using b False by (simp add: matches_def)
    ultimately show ?thesis using b False by simp
  qed
qed

lemma filter_batch_Inr:
  "filter_batch x a b = (ws, Inr fl) \<Longrightarrow>
     fl = filter (matches x a) b \<and> (\<forall>t \<in> set b. \<exists>r. snd (check_token x a t) = Inr r)"
  unfolding filter_batch_def Let_def
  by (auto split: prod.splits sum.splits dest: token_loop_Inr)

lemma filter_batch_total:
  "\<forall>t \<in> set b. \<exists>r. snd (check_token x a t) = Inr r \<Longrightarrow>
   \<exists>ws. filter_batch x a b = (ws, Inr (filter (matches x a) b))"
  using token_loop_total[of b x a 0 0 "[]"]
  unfolding filter_batch_def Let_def by auto

lemma scan_batches_raised_None:
  "raised (scan_batches x a bs) = None \<longleftrightarrow>
     (\<forall>t \<in> set (concat bs). \<exists>r. snd (check_token x a t) = Inr r)"
proof (induction bs)
  case Nil
  then show ?case by simp
next
  case (Cons b bs)
  show ?case
  proof (cases "filter_batch x a b")
    case (Pair ws r)
    show ?thesis
    proof (cases r)
      case (Inl e)
      have "\<not> (\<forall>t \<in> set b. \<exists>r. snd (check_token x a t) = Inr r)"
      proof
        assume "\<forall>t \<in> set b. \<exists>r. snd (check_token x a t) = Inr r"
        from filter_batch_total[OF this] Pair Inl show False by auto
      qed
      with Pair Inl show ?thesis by auto
    next
      case (Inr fl)
      with Pair filter_batch_Inr[of x a b ws fl] Cons.IH show ?thesis by auto
    qed
  qed
qed

lemma scan_batches_yielded:
  "raised (scan_batches x a bs) = None \<Longrightarrow>
     concat (yielded (scan_batches x a bs)) = filter (matches x a) (concat bs)"
proof (induction bs)
  case Nil
  then show ?case by simp
next
  case (Cons b bs)
  then show ?case
    by (auto split: prod.splits sum.splits dest: filter_batch_Inr)
qed

lemma concat_paginate: "0 < k \<Longrightarrow> concat (paginate k xs) = xs"
proof (induction k xs rule: paginate.induct)
  case (1 k xs)
  show ?case
  proof (cases "xs = []")
    case True
    then show ?thesis by (simp add: paginate.simps)
  next
    case False
    with 1 have "concat (paginate k (drop k xs)) = drop k xs" by simp
    with False 1 show ?thesis by (subst paginate.simps) simp
  qed
qed


lemma check_token_chunksize [simp]:
  "check_token x (a\<lparr>chunksize := c\<rparr>) t = check_token x a t"
proof -
  have "check_last_auth x (a\<lparr>chunksize := c\<rparr>) t = check_last_auth x a t"
    by (simp add: check_last_auth_def)
  moreover have "check_serial x (a\<lparr>chunksize := c\<rparr>) t = check_serial x a t"
    by (simp add: check_serial_def)
  moreover have "check_description x (a\<lparr>chunksize := c\<rparr>) t = check_description x a t"
    by (simp add: check_description_def)
  moreover have "check_has_not_key (a\<lparr>chunksize := c\<rparr>) t = check_has_not_key a t"
    by (simp add: check_has_not_key_def)
  moreover have "check_has_key (a\<lparr>chunksize := c\<rparr>) t = check_has_key a t"
    by (simp add: check_has_key_def)
  moreover have "check_tokeninfo_value (a\<lparr>chunksize := c\<rparr>) t = check_tokeninfo_value a t"
    by (simp add: check_tokeninfo_value_def cong: option.case_cong)
  moreover have "check_tokenattribute (a\<lparr>chunksize := c\<rparr>) t = check_tokenattribute a t"
    by (simp add: check_tokenattribute_def cong: option.case_cong)
  moreover have "check_orphaned_true x (a\<lparr>chunksize := c\<rparr>) t = check_orphaned_true x a t"
    by (simp add: check_orphaned_true_def orphaned_upper_def)
  moreover have "check_orphaned_false x (a\<lparr>chunksize := c\<rparr>) t = check_orphaned_false x a t"
    by (simp add: check_orphaned_false_def orphaned_upper_def)
  ultimately show ?thesis by (simp only: check_token_def)
qed

lemma token_loop_chunksize [simp]:
  "token_loop x (a\<lparr>chunksize := c\<rparr>) ts st = token_loop x a ts st"
proof (induction ts arbitrary: st)
  case Nil
  then show ?case by simp
next
  case (Cons t ts)
  then show ?case by (cases st) (simp cong: sum.case_cong bool.case_cong)
qed

lemma scan_batches_chunksize [simp]:
  "scan_batches x (a\<lparr>chunksize := c\<rparr>) bs = scan_batches x a bs"
  by (induction bs) (simp_all add: filter_batch_def)

lemma sample_after_given:
  "try_convert_to_datetime sample_ext ''2020-01-01'' =
     Inr \<lparr>wall = 1577836800000000, tzinfo = Some 0\<rparr>"
  by (simp add: try_convert_to_datetime_def sample_ext_def sample_parse_def)

lemma sample_last_auth_parse:
  "parse_datetime sample_ext ''last_auth'' (PStr ''2021-06-01T00:00:00+00:00'') =
     Inr \<lparr>wall = 1622505600000000, tzinfo = Some 0\<rparr>"
  "parse_datetime sample_ext ''last_auth'' (PStr ''2020-01-01'') = Inl TypeError"
  by (simp_all add: parse_datetime_def sample_ext_def sample_parse_def)

lemma sample_after_values:
  "sample_after (PStr ''2021-06-01T00:00:00+00:00'') = Inr True"
  "sample_after (PStr ''2020-01-01'') = Inl TypeError"
  by (simp_all add: sample_after_def compare_after_def sample_after_given
      sample_last_auth_parse dt_less_def)

lemma sample_after_fields:
  "last_auth sample_args_after = None" "arg_serial sample_args_after = None"
  "arg_description sample_args_after = None" "has_not_tokeninfo_key sample_args_after = None"
  "has_tokeninfo_key sample_args_after = None"
  "tokeninfo_key sample_args_after = Some ''last_auth''"
  "tokeninfo_value_filter sample_args_after = [sample_after]"
  "tokenattribute sample_args_after = None" "tokenattribute_filter sample_args_after = []"
  "orphaned_upper sample_args_after = []"
  by (simp_all add: sample_args_after_def orphaned_upper_def py_upper_def)

lemma sample_after_A1:
  "check_token x sample_args_after tokA1 =
     ([(TokeninfoLookup, Inr True), (TokeninfoComparator 0, Inr True)], Inr True)"
  by (simp add: check_defs_full sample_after_fields sample_after_values tokA1_def)

lemma sample_after_C1:
  "check_token x sample_args_after tokC1 =
     ([(TokeninfoLookup, Inr True), (TokeninfoComparator 0, Inl TypeError)], Inl TypeError)"
  by (simp add: check_defs_full sample_after_fields sample_after_values tokC1_def)

lemma sample_legacy_store:
  "get_tokens sample_ext_legacy tt act asg = [tokA1, tokC1]"
  by (simp add: sample_ext_legacy_def)

text \<open>
  Claim C5, as stated, fails. The store holds the record \<^verbatim>\<open>A1\<close> and then a record
  whose last authentication is stored without a zone, on which the after comparator
  raises. In chunks of one the scan has yielded \<^verbatim>\<open>A1\<close> before it raises; without
  chunks it raises inside its only batch and yields nothing.
\<close>

theorem chunked_scan_yields_before_raising:
  "concat (yielded (get_tokenlist sample_ext_legacy (sample_args_after\<lparr>chunksize := Some 1\<rparr>)))
     = [tokA1] \<and>
   concat (yielded (get_tokenlist sample_ext_legacy (sample_args_after\<lparr>chunksize := None\<rparr>)))
     = [] \<and>
   raised (get_tokenlist sample_ext_legacy (sample_args_after\<lparr>chunksize := None\<rparr>))
     = Some TypeError"
  by (simp add: get_tokenlist_def get_tokens_paginated_generator_def sample_legacy_store
      paginate.simps filter_batch_def sample_after_A1 sample_after_C1 split: prod.splits)

text \<open>
  Claim C5, amended. For a chunk size \<open>k\<close> of at least one, when no check raises, so
  that the scan without chunks yields its filtered list, the scan in chunks of \<open>k\<close>
  also completes, and the concatenation of the filtered lists of its chunks, in order,
  is that filtered list.
\<close>

theorem chunked_scan_same_matches:
  assumes "0 < k" and "raised (get_tokenlist x (a\<lparr>chunksize := None\<rparr>)) = None"
  shows "raised (get_tokenlist x (a\<lparr>chunksize := Some k\<rparr>)) = None \<and>
         concat (yielded (get_tokenlist x (a\<lparr>chunksize := Some k\<rparr>))) =
         concat (yielded (get_tokenlist x (a\<lparr>chunksize := None\<rparr>)))"
proof -
  let ?store = "get_tokens x (arg_tokentype a) (filter_flag (active a)) (filter_flag (assigned a))"
  have u: "get_tokenlist x (a\<lparr>chunksize := None\<rparr>) = scan_batches x a [?store]"
    by (simp add: get_tokenlist_def)
  have c: "get_tokenlist x (a\<lparr>chunksize := Some k\<rparr>) = scan_batches x a (paginate k ?store)"
    by (simp add: get_tokenlist_def get_tokens_paginated_generator_def)
  have cc: "concat (paginate k ?store) = concat [?store]"
    using assms(1) by (simp add: concat_paginate)
  from assms(2) u have "raised (scan_batches x a [?store]) = None" by simp
  then have ok: "\<forall>t \<in> set (concat [?store]). \<exists>r. snd (check_token x a t) = Inr r"
    by (simp only: scan_batches_raised_None)
  then have r: "raised (scan_batches x a (paginate k ?store)) = None"
    by (simp only: scan_batches_raised_None cc)
  have "concat (yielded (scan_batches x a (paginate k ?store))) = filter (matches x a) (concat [?store])"
    using scan_batches_yielded[OF r] cc by simp
  moreover have "concat (yielded (scan_batches x a [?store])) = filter (matches x a) (concat [?store])"
    using assms(2) u by (simp only: scan_batches_yielded)
  ultimately show ?thesis using r u c by simp
qed
lemmas check_defs = check_token_def check_last_auth_def check_serial_def check_description_def
      check_has_not_key_def check_has_key_def check_tokeninfo_value_def
      check_tokenattribute_def check_orphaned_true_def check_orphaned_false_def
      orphaned_upper_def then_check_def performed_def not_run_def py_upper_def

lemma sample_check_A1: "check_token sample_ext sample_args tokA1 = ([(DescriptionPattern, Inr True)], Inr True)"
  by (simp add: check_defs sample_ext_def sample_args_def tokA1_def sample_search_def)
lemma sample_check_A2: "check_token sample_ext sample_args tokA2 = ([(DescriptionPattern, Inr True)], Inr True)"
  by (simp add: check_defs sample_ext_def sample_args_def tokA2_def sample_search_def)
lemma sample_check_B1: "check_token sample_ext sample_args tokB1 = ([(DescriptionPattern, Inr False)], Inr False)"
  by (simp add: check_defs sample_ext_def sample_args_def tokB1_def sample_search_def)

lemma sample_store: "get_tokens sample_ext (arg_tokentype sample_args) (filter_flag (active sample_args))
     (filter_flag (assigned sample_args)) = [tokA1, tokA2, tokB1]"
  by (simp add: sample_ext_def sample_args_def)

lemma sample_unchunked_completes: "raised (get_tokenlist sample_ext (sample_args\<lparr>chunksize := None\<rparr>)) = None"
proof -
  have "get_tokenlist sample_ext (sample_args\<lparr>chunksize := None\<rparr>) =
        scan_batches sample_ext sample_args [[tokA1, tokA2, tokB1]]"
    using sample_store by (simp add: get_tokenlist_def del: scan_batches.simps)
  moreover have "\<forall>t \<in> set (concat [[tokA1, tokA2, tokB1]]).
                   \<exists>r. snd (check_token sample_ext sample_args t) = Inr r"
    by (auto simp: sample_check_A1 sample_check_A2 sample_check_B1)
  ultimately show ?thesis by (simp only: scan_batches_raised_None)
qed

lemma sample_unchunked_yields: "yielded (get_tokenlist sample_ext (sample_args\<lparr>chunksize := None\<rparr>)) = [[tokA1, tokA2]]"
  by (simp add: get_tokenlist_def sample_store filter_batch_def sample_check_A1 sample_check_A2 sample_check_B1 split: prod.splits)

theorem chunked_scan_same_matches_witness:
  "(0::nat) < 2 \<and> raised (get_tokenlist sample_ext (sample_args\<lparr>chunksize := None\<rparr>)) = None \<and>
   raised (get_tokenlist sample_ext (sample_args\<lparr>chunksize := Some 2\<rparr>)) = None \<and>
   concat (yielded (get_tokenlist sample_ext (sample_args\<lparr>chunksize := Some 2\<rparr>))) =
     [tokA1, tokA2]"
  using chunked_scan_same_matches[of 2 sample_ext sample_args]
    sample_unchunked_completes sample_unchunked_yields
  by simp

section \<open>The checks of one record\<close>

lemma then_check_pass: "snd c = Inr True \<Longrightarrow> then_check c r = (fst c @ fst r, snd r)"
  by (cases c) (simp add: then_check_def)

lemma then_check_stop: "snd c \<noteq> Inr True \<Longrightarrow> then_check c r = c"
  by (cases c) (auto simp: then_check_def split: sum.splits bool.splits)

lemma orderly_not_run: "orderly lo hi not_run"
  by (simp add: orderly_def not_run_def)

lemma orderly_performed: "lo \<le> stage c \<Longrightarrow> stage c \<le> hi \<Longrightarrow> orderly lo hi (performed c r)"
  by (simp add: orderly_def performed_def)

lemma orderly_then_check:
  assumes c: "orderly lo m c" and r: "orderly m' hi r"
    and "lo \<le> m" and "m \<le> m'" and "m' \<le> hi"
  shows "orderly lo hi (then_check c r)"
proof (cases "snd c = Inr True")
  case False
  with c assms(4,5) show ?thesis
    by (simp add: then_check_stop) (fastforce simp: orderly_def)
next
  case True
  have eq: "then_check c r = (fst c @ fst r, snd r)" using True by (rule then_check_pass)
  have allc: "\<forall>ev \<in> set (fst c). snd ev = Inr True" using c True by (simp add: orderly_def)
  have s: "sorted (map (stage \<circ> fst) (fst c @ fst r))"
    using c r assms(4) by (fastforce simp: orderly_def sorted_append)
  have b: "\<forall>ev \<in> set (fst c @ fst r). lo \<le> stage (fst ev) \<and> stage (fst ev) \<le> hi"
    using c r assms(3,4,5) by (fastforce simp: orderly_def)
  have bl: "\<forall>ev \<in> set (butlast (fst c @ fst r)). snd ev = Inr True"
    using allc r by (auto simp: orderly_def butlast_append dest: in_set_butlastD)
  have p: "snd r = Inr True \<longrightarrow> (\<forall>ev \<in> set (fst c @ fst r). snd ev = Inr True)"
    using allc r by (auto simp: orderly_def)
  have f: "snd r \<noteq> Inr True \<longrightarrow> fst c @ fst r \<noteq> [] \<and> snd (last (fst c @ fst r)) = snd r"
    using r by (auto simp: orderly_def)
  from s b bl p f show ?thesis unfolding eq orderly_def by simp
qed

lemma orderly_all_comparators:
  "(\<And>j. stage (ck j) = s) \<Longrightarrow> orderly s s (all_comparators ck i cs v)"
proof (induction cs arbitrary: i)
  case Nil
  then show ?case by (simp add: orderly_not_run)
next
  case (Cons c cs)
  then show ?case
    by (auto intro!: orderly_then_check[where m = s and m' = s] orderly_performed)
qed

lemma orderly_check_last_auth: "orderly 0 0 (check_last_auth x a t)"
  by (simp add: check_last_auth_def orderly_not_run orderly_performed split: option.splits)
lemma orderly_check_serial: "orderly 1 1 (check_serial x a t)"
  by (simp add: check_serial_def orderly_not_run orderly_performed split: option.splits)
lemma orderly_check_description: "orderly 2 2 (check_description x a t)"
  by (simp add: check_description_def orderly_not_run orderly_performed split: option.splits)
lemma orderly_check_has_not_key: "orderly 3 3 (check_has_not_key a t)"
  by (simp add: check_has_not_key_def orderly_not_run orderly_performed split: option.splits)
lemma orderly_check_has_key: "orderly 3 3 (check_has_key a t)"
  by (simp add: check_has_key_def orderly_not_run orderly_performed split: option.splits)
lemma orderly_check_tokeninfo_value: "orderly 4 4 (check_tokeninfo_value a t)"
  by (auto simp: check_tokeninfo_value_def orderly_not_run split: option.splits
      intro!: orderly_then_check[where m = 4 and m' = 4] orderly_performed orderly_all_comparators)
lemma orderly_check_tokenattribute: "orderly 4 4 (check_tokenattribute a t)"
  by (auto simp: check_tokenattribute_def orderly_not_run split: option.splits
      intro!: orderly_then_check[where m = 4 and m' = 4] orderly_performed orderly_all_comparators)
lemma orderly_check_orphaned_true: "orderly 5 5 (check_orphaned_true x a t)"
  by (simp add: check_orphaned_true_def orderly_not_run orderly_performed)
lemma orderly_check_orphaned_false: "orderly 5 5 (check_orphaned_false x a t)"
  by (simp add: check_orphaned_false_def orderly_not_run orderly_performed)

lemma orderly_check_token: "orderly 0 5 (check_token x a t)"
  unfolding check_token_def
  by (rule orderly_then_check[OF orderly_check_last_auth],
      rule orderly_then_check[OF orderly_check_serial],
      rule orderly_then_check[OF orderly_check_description],
      rule orderly_then_check[OF orderly_check_has_not_key],
      rule orderly_then_check[OF orderly_check_has_key],
      rule orderly_then_check[OF orderly_check_tokeninfo_value],
      rule orderly_then_check[OF orderly_check_tokenattribute],
      rule orderly_then_check[OF orderly_check_orphaned_true],
      rule orderly_then_check[OF orderly_check_orphaned_false],
      rule orderly_not_run[of 5 5], simp_all)

lemma filtered_subseq: "subseq (filter P xs) xs"
  by (induction xs) auto

lemma then_check_not_run: "then_check c not_run = c"
  by (cases c) (auto simp: then_check_def not_run_def split: sum.splits bool.splits)

lemma first_failing_append:
  "first_failing (xs @ ys) = then_check (first_failing xs) (first_failing ys)"
proof (induction xs)
  case Nil
  then show ?case by (cases "first_failing ys") (simp add: then_check_def)
next
  case (Cons ev xs)
  obtain c r where ev: "ev = (c, r)" by (cases ev) auto
  show ?case
  proof (cases "r = Inr True")
    case True
    obtain tr res where f: "first_failing xs = (tr, res)" by (cases "first_failing xs") auto
    with Cons.IH have "first_failing (xs @ ys) = then_check (tr, res) (first_failing ys)" by simp
    with ev True f show ?thesis
      by (auto simp: then_check_def split: sum.splits bool.splits prod.splits)
  next
    case False
    with ev show ?thesis
      by (auto simp: then_check_def split: sum.splits bool.splits)
  qed
qed

lemma first_failing_single: "first_failing [(c, r)] = performed c r"
  by (auto simp: performed_def)

lemma all_comparators_events:
  "all_comparators ck i cs v = first_failing (comparator_events ck i cs v)"
proof (induction cs arbitrary: i)
  case Nil
  then show ?case by (simp add: not_run_def)
next
  case (Cons c cs)
  have "first_failing ((ck i, c v) # comparator_events ck (Suc i) cs v) =
        then_check (performed (ck i) (c v)) (first_failing (comparator_events ck (Suc i) cs v))"
    using first_failing_append[of "[(ck i, c v)]" "comparator_events ck (Suc i) cs v"]
    by (simp only: first_failing_single append_Cons append_Nil)
  with Cons show ?case by simp
qed

lemma first_failing_Cons:
  "first_failing ((c, r) # es) = then_check (performed c r) (first_failing es)"
  using first_failing_append[of "[(c, r)]" es]
  by (simp only: first_failing_single append_Cons append_Nil)

lemma first_failing_Nil: "first_failing [] = not_run"
  by (simp add: not_run_def)

lemma check_last_auth_events:
  "check_last_auth x a t =
     first_failing (if truthy (last_auth a)
       then [(Recency, neg (check_last_auth_newer x t (the (last_auth a))))] else [])"
  by (auto simp: check_last_auth_def performed_def not_run_def split: option.splits)

lemma check_serial_events:
  "check_serial x a t =
     first_failing (if truthy (arg_serial a)
       then [(SerialPattern, re_search x (the (arg_serial a)) (serial t))] else [])"
  by (auto simp: check_serial_def performed_def not_run_def split: option.splits)

lemma check_description_events:
  "check_description x a t =
     first_failing (if truthy (arg_description a)
       then [(DescriptionPattern, re_search x (the (arg_description a)) (description t))] else [])"
  by (auto simp: check_description_def performed_def not_run_def split: option.splits)

lemma map_of_None_iff: "(map_of xs k = None) = (k \<notin> fst ` set xs)"
  by (rule map_of_eq_None_iff)

lemma check_has_not_key_events:
  "check_has_not_key a t =
     first_failing (if truthy (has_not_tokeninfo_key a)
       then [(HasNotKey, Inr (the (has_not_tokeninfo_key a) \<notin> fst ` set (tokeninfo t)))] else [])"
  by (auto simp: check_has_not_key_def performed_def not_run_def map_of_None_iff
      split: option.splits)

lemma check_has_key_events:
  "check_has_key a t =
     first_failing (if truthy (has_tokeninfo_key a)
       then [(HasKey, Inr (the (has_tokeninfo_key a) \<in> fst ` set (tokeninfo t)))] else [])"
  by (auto simp: check_has_key_def performed_def not_run_def map_of_None_iff
      split: option.splits)

lemma check_tokeninfo_value_events:
  "check_tokeninfo_value a t =
     first_failing (if tokeninfo_value_filter a \<noteq> [] \<and> truthy (tokeninfo_key a) then
          (case map_of (tokeninfo t) (the (tokeninfo_key a)) of
             None \<Rightarrow> [(TokeninfoLookup, Inr False)]
           | Some v \<Rightarrow>
               (TokeninfoLookup, Inr True)
                 # comparator_events TokeninfoComparator 0 (tokeninfo_value_filter a) (PStr v))
        else [])"
  by (cases "map_of (tokeninfo t) (the (tokeninfo_key a))")
     (simp_all add: check_tokeninfo_value_def first_failing_Cons first_failing_single
        first_failing_Nil all_comparators_events then_check_not_run del: first_failing.simps)

lemma check_tokenattribute_events:
  "check_tokenattribute a t =
     first_failing (if tokenattribute_filter a \<noteq> [] \<and> truthy (tokenattribute a) then
          (case token_get t (the (tokenattribute a)) of
             None \<Rightarrow> [(AttributeLookup, Inr False)]
           | Some v \<Rightarrow>
               (AttributeLookup, Inr True)
                 # comparator_events AttributeComparator 0 (tokenattribute_filter a) v)
        else [])"
  by (cases "token_get t (the (tokenattribute a))")
     (simp_all add: check_tokenattribute_def first_failing_Cons first_failing_single
        first_failing_Nil all_comparators_events then_check_not_run del: first_failing.simps)

lemma check_orphaned_true_events:
  "check_orphaned_true x a t =
     first_failing (if orphaned_upper a \<in> set [''1'', ''TRUE'']
        then [(OrphanState, is_orphaned x t)] else [])"
  by (simp add: check_orphaned_true_def first_failing_single first_failing_Nil
      del: first_failing.simps)

lemma check_orphaned_false_events:
  "check_orphaned_false x a t =
     first_failing (if orphaned_upper a \<in> set [''0'', ''FALSE'']
        then [(OrphanState, neg (is_orphaned x t))] else [])"
  by (simp add: check_orphaned_false_def first_failing_single first_failing_Nil
      del: first_failing.simps)

lemma check_token_first_failing:
  "check_token x a t = first_failing (selector_conditions x a t)"
  unfolding check_token_def selector_conditions_def
  by (simp only: first_failing_append then_check_not_run check_last_auth_events
      check_serial_events check_description_events check_has_not_key_events
      check_has_key_events check_tokeninfo_value_events check_tokenattribute_events
      check_orphaned_true_events check_orphaned_false_events)

lemma first_failing_True:
  "snd (first_failing es) = Inr True \<longleftrightarrow> (\<forall>ev \<in> set es. snd ev = Inr True)"
proof (induction es)
  case Nil
  then show ?case by simp
next
  case (Cons ev es)
  obtain c r where ev: "ev = (c, r)" by (cases ev) auto
  with Cons show ?case by (cases "first_failing es") auto
qed

lemma first_failing_prefix: "prefix (fst (first_failing es)) es"
proof (induction es)
  case Nil
  then show ?case by simp
next
  case (Cons ev es)
  obtain c r where ev: "ev = (c, r)" by (cases ev) auto
  with Cons show ?case by (cases "first_failing es") auto
qed

lemma comparator_events_stage:
  "(\<And>j. stage (ck j) = s) \<Longrightarrow> ev \<in> set (comparator_events ck i cs v) \<Longrightarrow> stage (fst ev) = s"
  by (induction cs arbitrary: i) auto

lemma staged_append:
  "staged lo m xs \<Longrightarrow> staged m' hi ys \<Longrightarrow> lo \<le> m \<Longrightarrow> m \<le> m' \<Longrightarrow> m' \<le> hi \<Longrightarrow>
     staged lo hi (xs @ ys)"
  unfolding staged_def by (fastforce simp: sorted_append)

lemma staged_same: "\<forall>ev \<in> set es. stage (fst ev) = s \<Longrightarrow> staged s s es"
  unfolding staged_def by (induction es) auto

lemma staged_value_filter:
  "(\<And>j. stage (ck j) = 4) \<Longrightarrow> stage lk = 4 \<Longrightarrow>
   staged 4 4 (if on then (case vo of None \<Rightarrow> [(lk, Inr False)]
                               | Some v \<Rightarrow> (lk, Inr True) # comparator_events ck 0 cs (f v))
               else [])"
  by (rule staged_same) (auto split: option.splits if_splits dest: comparator_events_stage[rotated])

lemma selector_conditions_sorted:
  "sorted (map (stage \<circ> fst) (selector_conditions x a t))"
proof -
  have s1: "staged 0 0 (if truthy (last_auth a)
      then [(Recency, neg (check_last_auth_newer x t (the (last_auth a))))] else [])"
    by (simp add: staged_def)
  have s2: "staged 1 1 (if truthy (arg_serial a)
        then [(SerialPattern, re_search x (the (arg_serial a)) (serial t))] else [])"
    by (simp add: staged_def)
  have s3: "staged 2 2 (if truthy (arg_description a)
        then [(DescriptionPattern, re_search x (the (arg_description a)) (description t))]
        else [])"
    by (simp add: staged_def)
  have s4: "staged 3 3 (if truthy (has_not_tokeninfo_key a)
        then [(HasNotKey, Inr (the (has_not_tokeninfo_key a) \<notin> fst ` set (tokeninfo t)))]
        else [])"
    by (simp add: staged_def)
  have s5: "staged 3 3 (if truthy (has_tokeninfo_key a)
        then [(HasKey, Inr (the (has_tokeninfo_key a) \<in> fst ` set (tokeninfo t)))] else [])"
    by (simp add: staged_def)
  have s6: "staged 4 4 (if tokeninfo_value_filter a \<noteq> [] \<and> truthy (tokeninfo_key a) then
          (case map_of (tokeninfo t) (the (tokeninfo_key a)) of
             None \<Rightarrow> [(TokeninfoLookup, Inr False)]
           | Some v \<Rightarrow>
               (TokeninfoLookup, Inr True)
                 # comparator_events TokeninfoComparator 0 (tokeninfo_value_filter a) (PStr v))
        else [])"
    by (rule staged_value_filter) simp_all
  have s7: "staged 4 4 (if tokenattribute_filter a \<noteq> [] \<and> truthy (tokenattribute a) then
          (case token_get t (the (tokenattribute a)) of
             None \<Rightarrow> [(AttributeLookup, Inr False)]
           | Some v \<Rightarrow>
               (AttributeLookup, Inr True)
                 # comparator_events AttributeComparator 0 (tokenattribute_filter a) v)
        else [])"
    by (rule staged_value_filter[where f = "\<lambda>v. v"]) simp_all
  have s8: "staged 5 5 (if orphaned_upper a \<in> set [''1'', ''TRUE'']
        then [(OrphanState, is_orphaned x t)] else [])"
    by (simp add: staged_def)
  have s9: "staged 5 5 (if orphaned_upper a \<in> set [''0'', ''FALSE'']
        then [(OrphanState, neg (is_orphaned x t))] else [])"
    by (simp add: staged_def)
  have "staged 0 5 (selector_conditions x a t)"
    unfolding selector_conditions_def
    by (rule staged_append[OF s1], rule staged_append[OF s2], rule staged_append[OF s3],
        rule staged_append[OF s4], rule staged_append[OF s5], rule staged_append[OF s6],
        rule staged_append[OF s7], rule staged_append[OF s8], rule s9, simp_all)
  then show ?thesis by (simp add: staged_def)
qed


text \<open>
  Claim C6. The filtered list of a batch is a subsequence of the batch: it holds, in
  their order, the records for which every check that the options call for passes.
  For every record the loop body is the checks that the options call for, taken in the
  order recency, serial pattern, description pattern, tokeninfo-key absence and
  presence, value filters, orphan state, up to and including the first that does not
  pass: the checks that ran are a prefix of that list, every one but the last has
  passed, a matching record has passed all of them, and an excluded record ends at its
  failing check.
\<close>

theorem filtered_list_order_and_short_circuit:
  "(filter_batch x a b = (ws, Inr fl) \<longrightarrow>
      subseq fl b \<and> fl = filter (matches x a) b \<and>
      fl = filter (\<lambda>t. \<forall>ev \<in> set (selector_conditions x a t). snd ev = Inr True) b) \<and>
   check_token x a t = first_failing (selector_conditions x a t) \<and>
   sorted (map (stage \<circ> fst) (selector_conditions x a t)) \<and>
   prefix (fst (check_token x a t)) (selector_conditions x a t) \<and>
   (matches x a t \<longleftrightarrow> (\<forall>ev \<in> set (selector_conditions x a t). snd ev = Inr True)) \<and>
   sorted (map (stage \<circ> fst) (fst (check_token x a t))) \<and>
   (\<forall>ev \<in> set (butlast (fst (check_token x a t))). snd ev = Inr True) \<and>
   (matches x a t \<longrightarrow> (\<forall>ev \<in> set (fst (check_token x a t)). snd ev = Inr True)) \<and>
   (snd (check_token x a t) = Inr False \<longrightarrow>
      fst (check_token x a t) \<noteq> [] \<and> snd (last (fst (check_token x a t))) = Inr False)"
proof -
  have m: "matches x a u \<longleftrightarrow> (\<forall>ev \<in> set (selector_conditions x a u). snd ev = Inr True)" for u
    by (simp add: matches_def check_token_first_failing first_failing_True)
  then have mf: "matches x a = (\<lambda>t. \<forall>ev \<in> set (selector_conditions x a t). snd ev = Inr True)"
    by (rule ext)
  have "filter_batch x a b = (ws, Inr fl) \<longrightarrow>
      subseq fl b \<and> fl = filter (matches x a) b \<and>
      fl = filter (\<lambda>t. \<forall>ev \<in> set (selector_conditions x a t). snd ev = Inr True) b"
    using filter_batch_Inr[of x a b ws fl] filtered_subseq[of "matches x a" b] mf by auto
  moreover have "check_token x a t = first_failing (selector_conditions x a t)"
    by (rule check_token_first_failing)
  moreover have "sorted (map (stage \<circ> fst) (selector_conditions x a t))"
    by (rule selector_conditions_sorted)
  moreover have "prefix (fst (check_token x a t)) (selector_conditions x a t)"
    by (simp add: check_token_first_failing first_failing_prefix)
  moreover note m[of t]
  moreover have "sorted (map (stage \<circ> fst) (fst (check_token x a t))) \<and>
   (\<forall>ev \<in> set (butlast (fst (check_token x a t))). snd ev = Inr True) \<and>
   (matches x a t \<longrightarrow> (\<forall>ev \<in> set (fst (check_token x a t)). snd ev = Inr True)) \<and>
   (snd (check_token x a t) = Inr False \<longrightarrow>
      fst (check_token x a t) \<noteq> [] \<and> snd (last (fst (check_token x a t))) = Inr False)"
    using orderly_check_token[of x a t] by (simp add: orderly_def matches_def)
  ultimately show ?thesis by blast
qed

lemma sample_full_fields:
  "last_auth sample_args_full = Some ''7d''"
  "arg_serial sample_args_full = Some ''A''"
  "arg_description sample_args_full = Some ''^temp''"
  "has_not_tokeninfo_key sample_args_full = None"
  "has_tokeninfo_key sample_args_full = Some ''last_auth''"
  "tokeninfo_key sample_args_full = Some ''count_auth''"
  "tokeninfo_value_filter sample_args_full = [sample_gt5]"
  "tokenattribute sample_args_full = Some ''count''"
  "tokenattribute_filter sample_args_full = [sample_lt10]"
  by (simp_all add: sample_args_full_def)

lemma sample_full_orphaned: "orphaned_upper sample_args_full = ''FALSE''"
  by code_simp

lemma sample_comparators:
  "sample_gt5 (PStr ''7'') = Inr True" "sample_lt10 (PInt 7) = Inr True"
  by (simp_all add: sample_gt5_def sample_lt10_def compare_greater_than_def
      compare_less_than_def try_convert_to_integer_def int_defs)

lemmas sample_defs = sample_ext_def sample_search_def sample_full_fields sample_full_orphaned
  sample_comparators token_get_def

lemma sample_full_A1:
  "check_token sample_ext sample_args_full tokA1 =
     ([(Recency, Inr True), (SerialPattern, Inr True), (DescriptionPattern, Inr True),
       (HasKey, Inr True), (TokeninfoLookup, Inr True), (TokeninfoComparator 0, Inr True),
       (AttributeLookup, Inr True), (AttributeComparator 0, Inr True),
       (OrphanState, Inr True)], Inr True)"
  by (simp add: check_defs_full sample_defs tokA1_def)

lemma sample_full_A2:
  "check_token sample_ext sample_args_full tokA2 =
     ([(Recency, Inr True), (SerialPattern, Inr True), (DescriptionPattern, Inr True),
       (HasKey, Inr True), (TokeninfoLookup, Inr False)], Inr False)"
  by (simp add: check_defs_full sample_defs tokA2_def)

lemma sample_full_B1:
  "check_token sample_ext sample_args_full tokB1 = ([(Recency, Inr False)], Inr False)"
  by (simp add: check_defs_full sample_defs tokB1_def)

lemma sample_full_conditions_A2:
  "selector_conditions sample_ext sample_args_full tokA2 =
     [(Recency, Inr True), (SerialPattern, Inr True), (DescriptionPattern, Inr True),
      (HasKey, Inr True), (TokeninfoLookup, Inr False), (AttributeLookup, Inr True),
      (AttributeComparator 0, Inr True), (OrphanState, Inr True)]"
  by (simp add: selector_conditions_def sample_defs tokA2_def sample_lt10_def
      compare_less_than_def try_convert_to_integer_def int_defs)

lemma sample_gt5_count_A2:
  "check_token sample_ext (sample_args_attribute\<lparr>tokenattribute_filter := [sample_gt5]\<rparr>) tokA2 =
     ([(AttributeLookup, Inr True), (AttributeComparator 0, Inr False)], Inr False)"
proof -
  have "sample_gt5 (PInt 3) = Inr False"
    by (simp add: sample_gt5_def compare_greater_than_def try_convert_to_integer_def int_defs)
  then show ?thesis
    by (simp add: check_defs_full sample_args_attribute_def orphaned_upper_def py_upper_def
        token_get_def tokA2_def)
qed

theorem filtered_list_order_and_short_circuit_witness:
  "\<exists>ws. filter_batch sample_ext sample_args_full [tokA1, tokA2, tokB1] = (ws, Inr [tokA1]) \<and>
        subseq [tokA1] [tokA1, tokA2, tokB1] \<and>
        [tokA1] = filter (\<lambda>t. \<forall>ev \<in> set (selector_conditions sample_ext sample_args_full t).
                                snd ev = Inr True) [tokA1, tokA2, tokB1] \<and>
        matches sample_ext sample_args_full tokA1 \<and>
        (\<forall>ev \<in> set (fst (check_token sample_ext sample_args_full tokA1)). snd ev = Inr True) \<and>
        snd (check_token sample_ext sample_args_full tokA2) = Inr False \<and>
        snd (last (fst (check_token sample_ext sample_args_full tokA2))) = Inr False \<and>
        first_failing (selector_conditions sample_ext sample_args_full tokA2) =
          ([(Recency, Inr True), (SerialPattern, Inr True), (DescriptionPattern, Inr True),
            (HasKey, Inr True), (TokeninfoLookup, Inr False)], Inr False) \<and>
        length (selector_conditions sample_ext sample_args_full tokA2) = 8 \<and>
        first_failing (selector_conditions sample_ext sample_args tokB1) =
          ([(DescriptionPattern, Inr False)], Inr False) \<and>
        first_failing (selector_conditions sample_ext
            (sample_args_attribute\<lparr>tokenattribute_filter := [sample_gt5]\<rparr>) tokA2) =
          ([(AttributeLookup, Inr True), (AttributeComparator 0, Inr False)], Inr False)"
proof -
  have m: "filter (matches sample_ext sample_args_full) [tokA1, tokA2, tokB1] = [tokA1]"
    by (simp add: matches_def sample_full_A1 sample_full_A2 sample_full_B1)
  have "\<forall>t \<in> set [tokA1, tokA2, tokB1]. \<exists>r. snd (check_token sample_ext sample_args_full t) = Inr r"
    by (auto simp: sample_full_A1 sample_full_A2 sample_full_B1)
  from filter_batch_total[OF this] m obtain ws where
    f: "filter_batch sample_ext sample_args_full [tokA1, tokA2, tokB1] = (ws, Inr [tokA1])"
    by auto
  have a1: "matches sample_ext sample_args_full tokA1"
    by (simp add: matches_def sample_full_A1)
  have a2: "snd (check_token sample_ext sample_args_full tokA2) = Inr False"
    by (simp add: sample_full_A2)
  note t1 = filtered_list_order_and_short_circuit[of sample_ext sample_args_full "[tokA1, tokA2, tokB1]" ws "[tokA1]" tokA1]
  note t2 = filtered_list_order_and_short_circuit[of sample_ext sample_args_full "[tokA1, tokA2, tokB1]" ws "[tokA1]" tokA2]
  from t1 f a1
  have "subseq [tokA1] [tokA1, tokA2, tokB1]"
    and "[tokA1] = filter (\<lambda>t. \<forall>ev \<in> set (selector_conditions sample_ext sample_args_full t).
                                snd ev = Inr True) [tokA1, tokA2, tokB1]"
    and "\<forall>ev \<in> set (fst (check_token sample_ext sample_args_full tokA1)). snd ev = Inr True"
    by blast+
  moreover from t2 a2
  have "snd (last (fst (check_token sample_ext sample_args_full tokA2))) = Inr False"
    by blast
  moreover from t2 have "first_failing (selector_conditions sample_ext sample_args_full tokA2) =
          ([(Recency, Inr True), (SerialPattern, Inr True), (DescriptionPattern, Inr True),
            (HasKey, Inr True), (TokeninfoLookup, Inr False)], Inr False)"
    by (simp add: sample_full_A2)
  moreover have "length (selector_conditions sample_ext sample_args_full tokA2) = 8"
    by (simp add: sample_full_conditions_A2)
  moreover from filtered_list_order_and_short_circuit[of sample_ext sample_args _ _ _ tokB1]
  have "first_failing (selector_conditions sample_ext sample_args tokB1) =
          ([(DescriptionPattern, Inr False)], Inr False)"
    by (simp add: sample_check_B1)
  moreover from filtered_list_order_and_short_circuit
      [of sample_ext "sample_args_attribute\<lparr>tokenattribute_filter := [sample_gt5]\<rparr>" _ _ _ tokA2]
  have "first_failing (selector_conditions sample_ext
            (sample_args_attribute\<lparr>tokenattribute_filter := [sample_gt5]\<rparr>) tokA2) =
          ([(AttributeLookup, Inr True), (AttributeComparator 0, Inr False)], Inr False)"
    by (simp add: sample_gt5_count_A2)
  ultimately show ?thesis using f a1 a2 by blast
qed

lemma then_check_mem:
  "ev \<in> set (fst (then_check c r)) \<Longrightarrow> ev \<in> set (fst c) \<or> ev \<in> set (fst r)"
  by (cases c) (auto simp: then_check_def split: sum.splits bool.splits)

lemma then_check_True:
  "snd (then_check c r) = Inr True \<longleftrightarrow> snd c = Inr True \<and> snd r = Inr True"
  by (cases c) (auto simp: then_check_def split: sum.splits bool.splits)

lemma all_comparators_mem:
  "ev \<in> set (fst (all_comparators ck i cs v)) \<Longrightarrow> \<exists>j. fst ev = ck j"
proof (induction cs arbitrary: i)
  case Nil
  then show ?case by (simp add: not_run_def)
next
  case (Cons c cs)
  then show ?case by (auto dest!: then_check_mem simp: performed_def)
qed

lemma check_token_mem:
  "ev \<in> set (fst (check_token x a t)) \<Longrightarrow>
     ev \<in> set (fst (check_last_auth x a t)) \<or> ev \<in> set (fst (check_serial x a t)) \<or>
     ev \<in> set (fst (check_description x a t)) \<or> ev \<in> set (fst (check_has_not_key a t)) \<or>
     ev \<in> set (fst (check_has_key a t)) \<or> ev \<in> set (fst (check_tokeninfo_value a t)) \<or>
     ev \<in> set (fst (check_tokenattribute a t)) \<or> ev \<in> set (fst (check_orphaned_true x a t)) \<or>
     ev \<in> set (fst (check_orphaned_false x a t))"
  unfolding check_token_def
  by (auto dest!: then_check_mem simp: not_run_def)

lemma check_token_True:
  "snd (check_token x a t) = Inr True \<Longrightarrow>
     snd (check_tokeninfo_value a t) = Inr True \<and> snd (check_tokenattribute a t) = Inr True"
  unfolding check_token_def by (simp add: then_check_True)

lemma simple_check_events:
  "ev \<in> set (fst (check_last_auth x a t)) \<Longrightarrow> fst ev = Recency"
  "ev \<in> set (fst (check_serial x a t)) \<Longrightarrow> fst ev = SerialPattern"
  "ev \<in> set (fst (check_description x a t)) \<Longrightarrow> fst ev = DescriptionPattern"
  "ev \<in> set (fst (check_has_not_key a t)) \<Longrightarrow> fst ev = HasNotKey"
  "ev \<in> set (fst (check_has_key a t)) \<Longrightarrow> fst ev = HasKey"
  "ev \<in> set (fst (check_orphaned_true x a t)) \<Longrightarrow> fst ev = OrphanState"
  "ev \<in> set (fst (check_orphaned_false x a t)) \<Longrightarrow> fst ev = OrphanState"
  by (auto simp: check_last_auth_def check_serial_def check_description_def
      check_has_not_key_def check_has_key_def check_orphaned_true_def check_orphaned_false_def
      performed_def not_run_def split: option.splits if_splits)

lemma tokeninfo_value_events:
  "ev \<in> set (fst (check_tokeninfo_value a t)) \<Longrightarrow>
     fst ev = TokeninfoLookup \<or> (\<exists>j. fst ev = TokeninfoComparator j)"
  by (auto simp: check_tokeninfo_value_def performed_def not_run_def
      split: option.splits if_splits dest!: then_check_mem all_comparators_mem)

lemma tokenattribute_events:
  "ev \<in> set (fst (check_tokenattribute a t)) \<Longrightarrow>
     fst ev = AttributeLookup \<or> (\<exists>j. fst ev = AttributeComparator j)"
  by (auto simp: check_tokenattribute_def performed_def not_run_def
      split: option.splits if_splits dest!: then_check_mem all_comparators_mem)

text \<open>
  Claim C9. With a non-empty tokeninfo value filter and a tokeninfo key given, a record
  whose tokeninfo lacks the key does not match, and no comparator of the filter is
  evaluated for it; the same holds for the token attribute filter and a record whose
  attribute has no value.
\<close>

theorem missing_value_excluded_without_comparators:
  "(tokeninfo_value_filter a \<noteq> [] \<and> truthy (tokeninfo_key a) \<and>
      map_of (tokeninfo t) (the (tokeninfo_key a)) = None \<longrightarrow>
        \<not> matches x a t \<and>
        (\<forall>i r. (TokeninfoComparator i, r) \<notin> set (fst (check_token x a t)))) \<and>
   (tokenattribute_filter a \<noteq> [] \<and> truthy (tokenattribute a) \<and>
      token_get t (the (tokenattribute a)) = None \<longrightarrow>
        \<not> matches x a t \<and>
        (\<forall>i r. (AttributeComparator i, r) \<notin> set (fst (check_token x a t))))"
proof (intro conjI impI allI)
  assume h: "tokeninfo_value_filter a \<noteq> [] \<and> truthy (tokeninfo_key a) \<and>
      map_of (tokeninfo t) (the (tokeninfo_key a)) = None"
  then have v: "check_tokeninfo_value a t = ([(TokeninfoLookup, Inr False)], Inr False)"
    by (simp add: check_tokeninfo_value_def performed_def)
  then show "\<not> matches x a t"
    using check_token_True[of x a t] by (auto simp: matches_def)
  fix i r
  show "(TokeninfoComparator i, r) \<notin> set (fst (check_token x a t))"
  proof
    assume "(TokeninfoComparator i, r) \<in> set (fst (check_token x a t))"
    from check_token_mem[OF this] show False
      using v by (auto dest: simple_check_events tokenattribute_events)
  qed
next
  assume h: "tokenattribute_filter a \<noteq> [] \<and> truthy (tokenattribute a) \<and>
      token_get t (the (tokenattribute a)) = None"
  then have v: "check_tokenattribute a t = ([(AttributeLookup, Inr False)], Inr False)"
    by (simp add: check_tokenattribute_def performed_def)
  then show "\<not> matches x a t"
    using check_token_True[of x a t] by (auto simp: matches_def)
  fix i r
  show "(AttributeComparator i, r) \<notin> set (fst (check_token x a t))"
  proof
    assume "(AttributeComparator i, r) \<in> set (fst (check_token x a t))"
    from check_token_mem[OF this] show False
      using v by (auto dest: simple_check_events tokeninfo_value_events)
  qed
qed

lemma sample_attribute_B1:
  "check_token sample_ext sample_args_attribute tokB1 = ([(AttributeLookup, Inr False)], Inr False)"
  by (simp add: check_defs_full sample_args_attribute_def orphaned_upper_def py_upper_def
      token_get_def tokB1_def)

theorem missing_value_excluded_without_comparators_witness:
  "tokeninfo_value_filter sample_args_full \<noteq> [] \<and> truthy (tokeninfo_key sample_args_full) \<and>
   map_of (tokeninfo tokA2) (the (tokeninfo_key sample_args_full)) = None \<and>
   \<not> matches sample_ext sample_args_full tokA2 \<and>
   (TokeninfoComparator 0, Inr True) \<notin> set (fst (check_token sample_ext sample_args_full tokA2)) \<and>
   tokenattribute_filter sample_args_attribute \<noteq> [] \<and>
   truthy (tokenattribute sample_args_attribute) \<and>
   token_get tokB1 (the (tokenattribute sample_args_attribute)) = None \<and>
   \<not> matches sample_ext sample_args_attribute tokB1 \<and>
   (AttributeComparator 0, Inr True) \<notin>
     set (fst (check_token sample_ext sample_args_attribute tokB1)) \<and>
   fst (check_token sample_ext sample_args_attribute tokB1) = [(AttributeLookup, Inr False)]"
proof -
  have h1: "tokeninfo_value_filter sample_args_full \<noteq> [] \<and> truthy (tokeninfo_key sample_args_full) \<and>
      map_of (tokeninfo tokA2) (the (tokeninfo_key sample_args_full)) = None"
    by (simp add: sample_full_fields tokA2_def)
  let ?a = "sample_args_attribute"
  have h2: "tokenattribute_filter ?a \<noteq> [] \<and> truthy (tokenattribute ?a) \<and>
      token_get tokB1 (the (tokenattribute ?a)) = None"
    by (simp add: sample_args_attribute_def token_get_def tokB1_def)
  from missing_value_excluded_without_comparators[of sample_args_full tokA2 sample_ext] h1
  have "\<not> matches sample_ext sample_args_full tokA2"
    and "(TokeninfoComparator 0, Inr True) \<notin> set (fst (check_token sample_ext sample_args_full tokA2))"
    by blast+
  moreover from missing_value_excluded_without_comparators[of ?a tokB1 sample_ext] h2
  have "\<not> matches sample_ext ?a tokB1"
    and "(AttributeComparator 0, Inr True) \<notin> set (fst (check_token sample_ext ?a tokB1))"
    by blast+
  moreover have "fst (check_token sample_ext ?a tokB1) = [(AttributeLookup, Inr False)]"
    by (simp add: sample_attribute_B1)
  ultimately show ?thesis using h1 h2 by blast
qed

text \<open>
  Claim C10. With the last-authentication age given, the recency check excludes a
  record exactly when \<^verbatim>\<open>check_last_auth_newer\<close> says that its last authentication is
  newer than the age, and such a record is dropped with no other check run.
\<close>

theorem recent_records_dropped_first:
  assumes "last_auth a = Some la" and "la \<noteq> []"
  shows "((Recency, Inr False) \<in> set (fst (check_token x a t)) \<longleftrightarrow>
            check_last_auth_newer x t la = Inr True) \<and>
         (check_last_auth_newer x t la = Inr True \<longrightarrow>
            check_token x a t = ([(Recency, Inr False)], Inr False))"
proof -
  have c: "check_last_auth x a t = ([(Recency, neg (check_last_auth_newer x t la))],
                                     neg (check_last_auth_newer x t la))"
    using assms by (simp add: check_last_auth_def performed_def)
  have n: "Inr False = neg r \<longleftrightarrow> r = Inr True" for r by (cases r) auto
  have 1: "check_token x a t = ([(Recency, Inr False)], Inr False)"
    if "check_last_auth_newer x t la = Inr True"
    using that c by (simp add: check_token_def then_check_def)
  have 2: "check_last_auth_newer x t la = Inr True"
    if "(Recency, Inr False) \<in> set (fst (check_token x a t))"
    using check_token_mem[OF that] c
    by (auto simp: n dest: simple_check_events tokeninfo_value_events tokenattribute_events)
  from 1 2 show ?thesis by auto
qed

theorem recent_records_dropped_first_witness:
  "last_auth sample_args_full = Some ''7d'' \<and> ''7d'' \<noteq> [] \<and>
   check_last_auth_newer sample_ext tokB1 ''7d'' = Inr True \<and>
   check_token sample_ext sample_args_full tokB1 = ([(Recency, Inr False)], Inr False) \<and>
   check_last_auth_newer sample_ext tokA1 ''7d'' \<noteq> Inr True \<and>
   (Recency, Inr False) \<notin> set (fst (check_token sample_ext sample_args_full tokA1))"
proof -
  have h: "last_auth sample_args_full = Some ''7d''" "''7d'' \<noteq> []"
    by (simp_all add: sample_args_full_def)
  have b: "check_last_auth_newer sample_ext tokB1 ''7d'' = Inr True"
    by (simp add: sample_ext_def tokB1_def)
  have a: "check_last_auth_newer sample_ext tokA1 ''7d'' \<noteq> Inr True"
    by (simp add: sample_ext_def tokA1_def)
  from recent_records_dropped_first[OF h, of sample_ext tokB1] b
  have "check_token sample_ext sample_args_full tokB1 = ([(Recency, Inr False)], Inr False)"
    by blast
  moreover from recent_records_dropped_first[OF h, of sample_ext tokA1] a
  have "(Recency, Inr False) \<notin> set (fst (check_token sample_ext sample_args_full tokA1))"
    by blast
  ultimately show ?thesis using h a b by blast
qed

section \<open>Temporal comparators\<close>

lemma try_convert_to_datetime_aware:
  "try_convert_to_datetime x v = Inr g \<Longrightarrow> \<exists>j. instant g = Some j"
  by (auto simp: try_convert_to_datetime_def instant_def split: sum.splits error.splits if_splits)

lemma dt_less_instants:
  "instant a = Some i \<Longrightarrow> instant b = Some j \<Longrightarrow> dt_less a b = Inr (i < j)"
  by (auto simp: dt_less_def instant_def split: option.splits)

lemma compare_after_Inr:
  "compare_after x key v = Inr af \<Longrightarrow>
     \<exists>g. try_convert_to_datetime x v = Inr g \<and>
         af = (\<lambda>value. except_ValueError
                 (case parse_datetime x key value of Inl e \<Rightarrow> Inl e | Inr d \<Rightarrow> dt_less g d))"
  by (auto simp: compare_after_def split: sum.splits)

lemma compare_before_Inr:
  "compare_before x key v = Inr be \<Longrightarrow>
     \<exists>g. try_convert_to_datetime x v = Inr g \<and>
         be = (\<lambda>value. except_ValueError
                 (case parse_datetime x key value of Inl e \<Rightarrow> Inl e | Inr d \<Rightarrow> dt_less d g))"
  by (auto simp: compare_before_def split: sum.splits)

text \<open>
  Claim C7. When one operand builds both comparators and the field value parses to an
  aware \<^verbatim>\<open>datetime\<close> with instant \<open>i\<close>, the operand has an instant \<open>j\<close>, the after
  predicate returns whether \<open>j < i\<close> and the before predicate whether \<open>i < j\<close>: exactly
  one of them is true, unless the two instants are equal, and then both are false.
\<close>

theorem after_before_exclusive:
  assumes "compare_after x key v = Inr af" and "compare_before x key v = Inr be"
      and "parse_datetime x key fv = Inr d" and "instant d = Some i"
  shows "\<exists>g j. try_convert_to_datetime x v = Inr g \<and> instant g = Some j \<and>
           af fv = Inr (j < i) \<and> be fv = Inr (i < j) \<and>
           (i \<noteq> j \<longrightarrow> (af fv = Inr True) \<noteq> (be fv = Inr True)) \<and>
           (i = j \<longrightarrow> af fv = Inr False \<and> be fv = Inr False)"
proof -
  from compare_after_Inr[OF assms(1)] obtain g where
    g: "try_convert_to_datetime x v = Inr g" and
    af: "af = (\<lambda>value. except_ValueError
                 (case parse_datetime x key value of Inl e \<Rightarrow> Inl e | Inr d \<Rightarrow> dt_less g d))"
    by blast
  from compare_before_Inr[OF assms(2)] g have
    be: "be = (\<lambda>value. except_ValueError
                 (case parse_datetime x key value of Inl e \<Rightarrow> Inl e | Inr d \<Rightarrow> dt_less d g))"
    by auto
  from try_convert_to_datetime_aware[OF g] obtain j where j: "instant g = Some j" by blast
  have a: "af fv = Inr (j < i)"
    using af assms(3) dt_less_instants[OF j assms(4)] by simp
  have b: "be fv = Inr (i < j)"
    using be assms(3) dt_less_instants[OF assms(4) j] by simp
  from g j a b show ?thesis by auto
qed

theorem after_before_exclusive_witness:
  "\<exists>af be. compare_after sample_ext ''created'' ''2020-01-01'' = Inr af \<and>
           compare_before sample_ext ''created'' ''2020-01-01'' = Inr be \<and>
           parse_datetime sample_ext ''created'' (PStr ''2021-06-01T00:00:00+00:00'') =
             Inr \<lparr>wall = 1622505600000000, tzinfo = Some 0\<rparr> \<and>
           instant \<lparr>wall = 1622505600000000, tzinfo = Some 0\<rparr> = Some 1622505600000000 \<and>
           af (PStr ''2021-06-01T00:00:00+00:00'') = Inr True \<and>
           be (PStr ''2021-06-01T00:00:00+00:00'') = Inr False"
proof -
  have g: "try_convert_to_datetime sample_ext ''2020-01-01'' =
             Inr \<lparr>wall = 1577836800000000, tzinfo = Some 0\<rparr>"
    by (simp add: try_convert_to_datetime_def sample_ext_def sample_parse_def)
  obtain af where af: "compare_after sample_ext ''created'' ''2020-01-01'' = Inr af"
    by (simp add: compare_after_def g)
  obtain be where be: "compare_before sample_ext ''created'' ''2020-01-01'' = Inr be"
    by (simp add: compare_before_def g)
  have p: "parse_datetime sample_ext ''created'' (PStr ''2021-06-01T00:00:00+00:00'') =
             Inr \<lparr>wall = 1622505600000000, tzinfo = Some 0\<rparr>"
    by (simp add: parse_datetime_def sample_ext_def sample_parse_def)
  have i: "instant \<lparr>wall = 1622505600000000, tzinfo = Some 0\<rparr> = Some 1622505600000000"
    by (simp add: instant_def)
  from after_before_exclusive[OF af be p i] g have
    "af (PStr ''2021-06-01T00:00:00+00:00'') = Inr True"
    "be (PStr ''2021-06-01T00:00:00+00:00'') = Inr False"
    by (auto simp: instant_def)
  with af be p i show ?thesis by blast
qed

section \<open>Comparators at evaluation time\<close>





section \<open>The criterion compiler on its documented operators\<close>

lemma tokeninfo_branches_unbound: "tokeninfo_branches m = Inr l \<Longrightarrow> l = unbound"
  by (auto simp: tokeninfo_branches_def tokeninfo_try_def tokeninfo_except_def m_group_def
      and_then_def split: if_splits sum.splits)

lemma tokenattribute_branches_unbound: "tokenattribute_branches m = Inr l \<Longrightarrow> l = unbound"
  by (auto simp: tokenattribute_branches_def m_group_def and_then_def split: if_splits sum.splits)

lemma find_tokeninfo_never_accepts: "\<exists>e. find_tokeninfo x ti = Inl e"
  by (auto simp: find_tokeninfo_def and_then_def read_local_def unbound_def
      split: option.splits sum.splits dest!: tokeninfo_branches_unbound)

lemma find_tokenattribute_never_accepts: "\<exists>e. find_tokenattribute x ta = Inl e"
  by (auto simp: find_tokenattribute_def and_then_def read_local_def unbound_def
      split: option.splits sum.splits dest!: tokenattribute_branches_unbound)

lemmas match_defs = re_match_criterion_def py_isspace_def is_lower_def is_upper_def is_digit_def

text \<open>
  Claim C1, at the failing input. The option text \<^verbatim>\<open>count >= 5\<close>, of the form that the
  help text of \<^verbatim>\<open>--tokeninfo\<close> documents, does not match the pattern of \<^verbatim>\<open>find\<close>, and
  the call of \<^verbatim>\<open>m.group\<close> on the missing match raises; a text that does match the
  pattern, such as \<^verbatim>\<open>aB1>\<close>, binds none of the value variables, and reading them
  raises. No comparator is selected for either.
\<close>

theorem criterion_compiler_rejects_documented_operators:
  "find_tokeninfo sample_ext (Some ''count >= 5'') = Inl AttributeError \<and>
   find_tokenattribute sample_ext (Some ''count >= 5'') = Inl AttributeError \<and>
   find_tokeninfo sample_ext (Some ''aB1>'') = Inl UnboundLocalError"
  by (simp add: find_tokeninfo_def find_tokenattribute_def match_defs m_group_def and_then_def
      tokeninfo_branches_def tokeninfo_try_def read_local_def unbound_def)

section \<open>Actions and their output\<close>

lemma try_each_never_raises: "snd (snd (try_each act msg ts st)) = None"
proof (induction ts arbitrary: st)
  case Nil
  then show ?case by simp
next
  case (Cons t ts)
  show ?case
  proof (cases "act t st")
    case (Inl e)
    obtain s2 ws r where r: "try_each act msg ts st = (s2, ws, r)" by (cases "try_each act msg ts st") auto
    with Cons.IH[of st] have "r = None" by simp
    with Inl r show ?thesis by simp
  next
    case (Inr st1)
    obtain s2 ws r where r: "try_each act msg ts st1 = (s2, ws, r)" by (cases "try_each act msg ts st1") auto
    with Cons.IH[of st1] have "r = None" by simp
    with Inr r show ?thesis by simp
  qed
qed

lemma for_each_batch_out:
  assumes "\<And>tlist st. list_all P (fst (snd (body tlist st)))" and "list_all P (gen_out g)"
  shows "list_all P (fst (snd (for_each_batch body g st)))"
  using assms(2)
proof (induction g arbitrary: st)
  case Done
  then show ?case by simp
next
  case (Raise ws e)
  then show ?case by simp
next
  case (Yield ws tlist g)
  obtain s1 w1 r1 where b: "body tlist st = (s1, w1, r1)" by (cases "body tlist st") auto
  with assms(1)[of tlist st] have w1: "list_all P w1" by simp
  show ?case
  proof (cases r1)
    case (Some e)
    with b w1 Yield.prems show ?thesis by simp
  next
    case None
    obtain s2 w2 r2 where f: "for_each_batch body g s1 = (s2, w2, r2)"
      by (cases "for_each_batch body g s1") auto
    with Yield.IH[of s1] Yield.prems have "list_all P w2" by simp
    with b None f w1 Yield.prems show ?thesis by simp
  qed
qed

lemma scan_write_intros [simp]:
  "scan_write (progress c f eol)" "scan_write (stderr_write Progress s)"
  by (simp_all add: scan_write_def progress_def stderr_write_def)

lemma token_loop_out: "list_all scan_write (fst (token_loop x a ts st))"
proof (induction ts arbitrary: st)
  case Nil
  then show ?case by simp
next
  case (Cons t ts)
  obtain c f fl where st: "st = (c, f, fl)" by (cases st) auto
  show ?case
  proof (cases "snd (check_token x a t)")
    case (Inl e)
    with st show ?thesis by simp
  next
    case (Inr b)
    show ?thesis
    proof (cases b)
      case True
      obtain ws r where l: "token_loop x a ts (c + 1, f + 1, fl @ [t]) = (ws, r)"
        by (cases "token_loop x a ts (c + 1, f + 1, fl @ [t])") auto
      with Cons.IH[of "(c + 1, f + 1, fl @ [t])"] have "list_all scan_write ws" by simp
      with st Inr True l show ?thesis
        by simp
    next
      case False
      obtain ws r where l: "token_loop x a ts (c + 1, f, fl) = (ws, r)"
        by (cases "token_loop x a ts (c + 1, f, fl)") auto
      with Cons.IH[of "(c + 1, f, fl)"] have "list_all scan_write ws" by simp
      with st Inr False l show ?thesis
        by simp
    qed
  qed
qed

lemma filter_batch_out: "list_all scan_write (fst (filter_batch x a b))"
proof -
  obtain ws r where l: "token_loop x a b (0, 0, []) = (ws, r)"
    by (cases "token_loop x a b (0, 0, [])") auto
  with token_loop_out[of x a b "(0, 0, [])"] have "list_all scan_write ws" by simp
  with l show ?thesis
    by (cases r) (auto simp: filter_batch_def split: prod.splits)
qed

lemma scan_batches_out: "list_all scan_write (gen_out (scan_batches x a bs))"
proof (induction bs)
  case Nil
  then show ?case by simp
next
  case (Cons b bs)
  obtain ws r where f: "filter_batch x a b = (ws, r)" by (cases "filter_batch x a b") auto
  with filter_batch_out[of x a b] have "list_all scan_write ws" by simp
  with f Cons show ?case by (cases r) auto
qed

lemma get_tokenlist_out: "list_all scan_write (gen_out (get_tokenlist x a))"
  by (simp add: get_tokenlist_def Let_def scan_batches_out)

lemma scan_write_well_routed: "scan_write w \<Longrightarrow> well_routed w"
  by (cases w rule: well_routed.cases) (auto simp: scan_write_def)

lemma list_all_weaken: "list_all P xs \<Longrightarrow> (\<And>x. P x \<Longrightarrow> Q x) \<Longrightarrow> list_all Q xs"
  by (induction xs) auto

lemma token_row_out: "list_all well_routed (fst (token_row x attrs t))"
  by (auto simp: token_row_def failed_user_def stderr_write_def Let_def
      split: sum.splits option.splits)

lemma export_token_data_out: "list_all well_routed (fst (export_token_data x attrs ts))"
  using token_row_out by (induction ts) (auto simp: export_token_data_def)

lemma print_intros [simp]:
  "well_routed (print Payload s)" "well_routed (print Report s)"
  "well_routed (stderr_write Progress s)" "well_routed (stderr_write Failure s)"
  "action_write (print Report s)" "action_write (print Failure s)"
  by (simp_all add: print_def stderr_write_def action_write_def)

lemma try_each_out: "list_all action_write (fst (snd (try_each act msg ts st)))"
proof (induction ts arbitrary: st)
  case Nil
  then show ?case by simp
next
  case (Cons t ts)
  show ?case
  proof (cases "act t st")
    case (Inl e)
    obtain s2 ws r where r: "try_each act msg ts st = (s2, ws, r)"
      by (cases "try_each act msg ts st") auto
    with Cons.IH[of st] have "list_all action_write ws" by simp
    with Inl r show ?thesis by simp
  next
    case (Inr st1)
    obtain s2 ws r where r: "try_each act msg ts st1 = (s2, ws, r)"
      by (cases "try_each act msg ts st1") auto
    with Cons.IH[of st1] have "list_all action_write ws" by simp
    with Inr r show ?thesis by simp
  qed
qed

lemma set_description_batch_out:
  "list_all well_routed (fst (snd (set_description_batch ops d ts st)))"
proof (induction ts arbitrary: st)
  case Nil
  then show ?case by simp
next
  case (Cons t ts)
  show ?case
  proof (cases "truthy d")
    case False
    with Cons show ?thesis by simp
  next
    case True
    show ?thesis
    proof (cases "tok_set_description ops t (the d) st")
      case (Inl e)
      with True show ?thesis by simp
    next
      case (Inr st1)
      show ?thesis
      proof (cases "tok_save ops t st1")
        case (Inl e)
        with True Inr show ?thesis by simp
      next
        case st2: (Inr st2)
        obtain s3 ws r where r: "set_description_batch ops d ts st2 = (s3, ws, r)"
          by (cases "set_description_batch ops d ts st2") auto
        with Cons.IH[of st2] have "list_all well_routed ws" by simp
        with True Inr st2 r show ?thesis by simp
      qed
    qed
  qed
qed

lemma set_tokeninfo_tokens_out:
  "list_all well_routed (fst (snd (set_tokeninfo_tokens ops v k ts st)))"
proof (induction ts arbitrary: st)
  case Nil
  then show ?case by simp
next
  case (Cons t ts)
  show ?case
  proof (cases "v \<noteq> [] \<and> k \<noteq> []")
    case False
    with Cons show ?thesis by auto
  next
    case True
    show ?thesis
    proof (cases "tok_add_tokeninfo ops t k v st")
      case (Inl e)
      with True show ?thesis by simp
    next
      case (Inr st1)
      show ?thesis
      proof (cases "tok_save ops t st1")
        case (Inl e)
        with True Inr show ?thesis by simp
      next
        case st2: (Inr st2)
        obtain s3 ws r where r: "set_tokeninfo_tokens ops v k ts st2 = (s3, ws, r)"
          by (cases "set_tokeninfo_tokens ops v k ts st2") auto
        with Cons.IH[of st2] have "list_all well_routed ws" by simp
        with True Inr st2 r show ?thesis by simp
      qed
    qed
  qed
qed

lemma set_tokeninfo_batch_out:
  "list_all well_routed (fst (snd (set_tokeninfo_batch ops items tlist st)))"
proof (induction items arbitrary: st)
  case Nil
  then show ?case by simp
next
  case (Cons item items)
  show ?case
  proof (cases "split_on CHR '':'' item")
    case Nil
    then show ?thesis by simp
  next
    case c1: (Cons x0 rest)
    show ?thesis
    proof (cases rest)
      case Nil
      with c1 show ?thesis by simp
    next
      case c2: (Cons x1 rest')
      obtain s1 w1 r1 where i: "set_tokeninfo_tokens ops x0 x1 tlist st = (s1, w1, r1)"
        by (cases "set_tokeninfo_tokens ops x0 x1 tlist st") auto
      with set_tokeninfo_tokens_out[of ops x0 x1 tlist st] have w1: "list_all well_routed w1"
        by simp
      show ?thesis
      proof (cases r1)
        case (Some e)
        with c1 c2 i w1 show ?thesis by simp
      next
        case None
        obtain s2 w2 r2 where j: "set_tokeninfo_batch ops items tlist s1 = (s2, w2, r2)"
          by (cases "set_tokeninfo_batch ops items tlist s1") auto
        with Cons.IH[of s1] have "list_all well_routed w2" by simp
        with c1 c2 i w1 None j show ?thesis by simp
      qed
    qed
  qed
qed

lemma delete_tokeninfo_tokens_out:
  "list_all well_routed (fst (snd (delete_tokeninfo_tokens ops item ts st)))"
proof (induction ts arbitrary: st)
  case Nil
  then show ?case by simp
next
  case (Cons t ts)
  show ?case
  proof (cases "item \<noteq> []")
    case False
    with Cons show ?thesis by auto
  next
    case True
    show ?thesis
    proof (cases "tok_del_tokeninfo ops t item st")
      case (Inl e)
      with True show ?thesis by simp
    next
      case (Inr st1)
      show ?thesis
      proof (cases "tok_save ops t st1")
        case (Inl e)
        with True Inr show ?thesis by simp
      next
        case st2: (Inr st2)
        obtain s3 ws r where r: "delete_tokeninfo_tokens ops item ts st2 = (s3, ws, r)"
          by (cases "delete_tokeninfo_tokens ops item ts st2") auto
        with Cons.IH[of st2] have "list_all well_routed ws" by simp
        with True Inr st2 r show ?thesis by simp
      qed
    qed
  qed
qed

lemma delete_tokeninfo_batch_out:
  "list_all well_routed (fst (snd (delete_tokeninfo_batch ops items tlist st)))"
proof (induction items arbitrary: st)
  case Nil
  then show ?case by simp
next
  case (Cons item items)
  obtain s1 w1 r1 where i: "delete_tokeninfo_tokens ops item tlist st = (s1, w1, r1)"
    by (cases "delete_tokeninfo_tokens ops item tlist st") auto
  with delete_tokeninfo_tokens_out[of ops item tlist st] have w1: "list_all well_routed w1"
    by simp
  show ?case
  proof (cases r1)
    case (Some e)
    with i w1 show ?thesis by simp
  next
    case None
    obtain s2 w2 r2 where j: "delete_tokeninfo_batch ops items tlist s1 = (s2, w2, r2)"
      by (cases "delete_tokeninfo_batch ops items tlist s1") auto
    with Cons.IH[of s1] have "list_all well_routed w2" by simp
    with i w1 None j show ?thesis by simp
  qed
qed

lemma export_csv_out: "list_all well_routed (fst (export_csv x b32 ts))"
proof (induction ts)
  case Nil
  then show ?case by simp
next
  case (Cons t ts)
  obtain ws r where e: "export_csv x b32 ts = (ws, r)" by (cases "export_csv x b32 ts") auto
  with Cons have "list_all well_routed ws" by simp
  with e show ?case by (auto split: sum.splits)
qed

lemma export_yaml_out: "list_all well_routed (fst (export_yaml x b32 ts td acc))"
proof (induction ts arbitrary: td acc)
  case Nil
  then show ?case by simp
next
  case (Cons t ts)
  have f: "well_routed (failed_export d)" for d by (simp add: failed_export_def)
  have ih: "list_all well_routed (fst (export_yaml x b32 ts td' acc'))" for td' acc'
    by (rule Cons.IH)
  show ?case
    using ih f
    by (auto split: sum.splits option.splits bool.splits prod.splits)
       (metis fst_conv)+
qed


lemma export_batch_out:
  "list_all well_routed (fst (snd (export_batch x is_csv is_yaml b32 tlist td)))"
proof -
  obtain w1 r1 where c: "export_csv x b32 tlist = (w1, r1)"
    by (cases "export_csv x b32 tlist") auto
  with export_csv_out[of x b32 tlist] have w1: "list_all well_routed w1" by simp
  obtain w2 r2 where y: "export_yaml x b32 tlist td [] = (w2, r2)"
    by (cases "export_yaml x b32 tlist td []") auto
  with export_yaml_out[of x b32 tlist td "[]"] have w2: "list_all well_routed w2" by simp
  show ?thesis
    using c w1 y w2
    by (auto simp: export_batch_def split: sum.splits prod.splits)
qed

lemma export_user_data_out:
  "list_all well_routed (fst (export_user_data x attrs ts uv users))"
proof (induction ts arbitrary: uv users)
  case Nil
  then show ?case by simp
next
  case (Cons t ts)
  have f: "well_routed (failed_user t)" by (simp add: failed_user_def)
  have ih: "list_all well_routed (fst (export_user_data x attrs ts uv' users'))" for uv' users'
    by (rule Cons.IH)
  show ?case
    using ih f
    by (auto split: sum.splits option.splits prod.splits) (metis fst_conv)+
qed

lemma listuser_body_out:
  "list_all well_routed
     (fst (snd (if \<not> sum_tokens then
            (case export_token_data x attrs tlist of
               (ws, tokens) \<Rightarrow> (st, ws @ map print_row tokens, None))
          else
            (case export_user_data x attrs tlist None [] of
               (ws, Inl e) \<Rightarrow> (st, ws, Some e)
             | (ws, Inr users) \<Rightarrow> (st, ws @ map print_user users, None)))))"
proof -
  obtain ws tokens where e: "export_token_data x attrs tlist = (ws, tokens)"
    by (cases "export_token_data x attrs tlist") auto
  with export_token_data_out[of x attrs tlist] have w: "list_all well_routed ws" by simp
  have rows: "list_all well_routed (map print_row tokens)"
    by (induction tokens) (auto simp: print_row_def)
  obtain w2 r2 where u: "export_user_data x attrs tlist None [] = (w2, r2)"
    by (cases "export_user_data x attrs tlist None []") auto
  with export_user_data_out[of x attrs tlist None "[]"] have w2: "list_all well_routed w2"
    by simp
  have users: "list_all well_routed (map print_user us)" for us
    by (induction us) (auto simp: print_user_def)
  show ?thesis using e w rows u w2 users by (auto split: sum.splits)
qed

lemma filter_batch_out_nonempty: "fst (filter_batch x a b) \<noteq> []"
  by (auto simp: filter_batch_def Let_def split: prod.splits sum.splits)

text \<open>
  Claim C2, at the failing input. The store fails to save the record \<^verbatim>\<open>A1\<close>. The loop
  of \<^verbatim>\<open>set_description\<close> has no \<^verbatim>\<open>try\<close>: the exception ends the run and the record
  \<^verbatim>\<open>A2\<close> is never processed. On the same records \<^verbatim>\<open>disable\<close> reports the failure and
  goes on to \<^verbatim>\<open>A2\<close>.
\<close>

theorem set_description_aborts_on_record_error:
  "set_description sample_ops (Some ''retired'') (Yield [] [tokA1, tokA2] Done) () =
     ((), [print Report ''Setting description for token A1: retired''],
      Some (OtherError ''database is locked'')) \<and>
   disable sample_ops (Yield [] [tokA1, tokA2] Done) () =
     ((), [print Failure ''Failed to process token A1.'', print Failure ''database is locked'',
           print Report ''Disabling token A2''], None)"
  by (simp add: set_description_def disable_def sample_ops_def tokA1_def tokA2_def)

text \<open>
  Claim C8, as stated, fails: \<^verbatim>\<open>disable\<close> prints the failure diagnostic of a record on
  the standard output stream.
\<close>

theorem disable_failure_on_stdout:
  "\<not> list_all well_routed (fst (snd (disable sample_ops (Yield [] [tokA1] Done) ())))"
  by (simp add: disable_def sample_ops_def tokA1_def print_def)

text \<open>
  Claim C8, amended. In every run of the scan with a listing, an export or one of
  \<^verbatim>\<open>set_description\<close>, \<^verbatim>\<open>set_tokeninfo\<close> and \<^verbatim>\<open>delete_tokeninfo\<close>, progress and
  failure text is written to the error stream only and the payload and the reports of
  changes to the standard output stream only. In a run of \<^verbatim>\<open>disable\<close>, \<^verbatim>\<open>delete\<close>,
  \<^verbatim>\<open>unassign\<close> or \<^verbatim>\<open>tokenrealms\<close> the same holds of the scan, and the action
  prints the failure diagnostic of a record, like its reports, on the standard output
  stream.
\<close>

theorem output_routing:
  "list_all well_routed (gen_out (get_tokenlist x a)) \<and>
   list_all well_routed (fst (snd (listuser x sum_tokens attrs (get_tokenlist x a) st))) \<and>
   list_all well_routed (fst (snd (export x is_csv is_yaml b32 (get_tokenlist x a)))) \<and>
   list_all well_routed (fst (snd (set_description ops d (get_tokenlist x a) s))) \<and>
   list_all well_routed (fst (snd (set_tokeninfo ops ti (get_tokenlist x a) s))) \<and>
   list_all well_routed (fst (snd (delete_tokeninfo ops ti (get_tokenlist x a) s))) \<and>
   list_all (\<lambda>w. scan_write w \<or> action_write w) (fst (snd (disable ops (get_tokenlist x a) s))) \<and>
   list_all (\<lambda>w. scan_write w \<or> action_write w) (fst (snd (delete ops (get_tokenlist x a) s))) \<and>
   list_all (\<lambda>w. scan_write w \<or> action_write w) (fst (snd (unassign ops (get_tokenlist x a) s))) \<and>
   list_all (\<lambda>w. scan_write w \<or> action_write w)
     (fst (snd (tokenrealms ops (get_tokenlist x a) s)))"
proof -
  have g: "list_all well_routed (gen_out (get_tokenlist x a))"
    using get_tokenlist_out[of x a] scan_write_well_routed by (rule list_all_weaken)
  have l: "list_all well_routed (fst (snd (listuser x sum_tokens attrs (get_tokenlist x a) st)))"
    unfolding listuser_def
    by (rule for_each_batch_out[OF listuser_body_out g])
  have e: "list_all well_routed (fst (snd (export x is_csv is_yaml b32 (get_tokenlist x a))))"
    unfolding export_def by (rule for_each_batch_out[OF export_batch_out g])
  have sd: "list_all well_routed (fst (snd (set_description ops d (get_tokenlist x a) s)))"
    unfolding set_description_def by (rule for_each_batch_out[OF set_description_batch_out g])
  have si: "list_all well_routed (fst (snd (set_tokeninfo ops ti (get_tokenlist x a) s)))"
  proof (cases ti)
    case None
    then show ?thesis by (simp add: set_tokeninfo_def)
  next
    case (Some opt_text)
    then show ?thesis
      unfolding set_tokeninfo_def
      by (simp, intro for_each_batch_out[OF set_tokeninfo_batch_out g])
  qed
  have di: "list_all well_routed (fst (snd (delete_tokeninfo ops ti (get_tokenlist x a) s)))"
  proof (cases ti)
    case None
    then show ?thesis by (simp add: delete_tokeninfo_def)
  next
    case (Some opt_text)
    then show ?thesis
      unfolding delete_tokeninfo_def
      by (simp, intro for_each_batch_out[OF delete_tokeninfo_batch_out g])
  qed
  have g2: "list_all (\<lambda>w. scan_write w \<or> action_write w) (gen_out (get_tokenlist x a))"
    using get_tokenlist_out[of x a] by (rule list_all_weaken) simp
  have t: "list_all (\<lambda>w. scan_write w \<or> action_write w) (fst (snd (try_each act msg tlist st')))"
    for act :: "token \<Rightarrow> 'b \<Rightarrow> error + 'b" and msg tlist st'
    using try_each_out[of act msg tlist st'] by (rule list_all_weaken) simp
  have d: "list_all (\<lambda>w. scan_write w \<or> action_write w)
             (fst (snd (disable ops (get_tokenlist x a) s)))"
    unfolding disable_def by (rule for_each_batch_out[OF t g2])
  have r: "list_all (\<lambda>w. scan_write w \<or> action_write w)
             (fst (snd (delete ops (get_tokenlist x a) s)))"
    unfolding delete_def by (rule for_each_batch_out[OF t g2])
  have u: "list_all (\<lambda>w. scan_write w \<or> action_write w)
             (fst (snd (unassign ops (get_tokenlist x a) s)))"
    unfolding unassign_def by (rule for_each_batch_out[OF t g2])
  have tr: "list_all (\<lambda>w. scan_write w \<or> action_write w)
             (fst (snd (tokenrealms ops (get_tokenlist x a) s)))"
    unfolding tokenrealms_def by (rule for_each_batch_out[OF t g2])
  from g l e sd si di d r u tr show ?thesis by blast
qed

lemma sample_generator:
  "\<exists>ws. get_tokenlist sample_ext sample_args = Yield ws [tokA1, tokA2] Done"
proof -
  have m: "filter (matches sample_ext sample_args) [tokA1, tokA2, tokB1] = [tokA1, tokA2]"
    by (simp add: matches_def sample_check_A1 sample_check_A2 sample_check_B1)
  have "\<forall>t \<in> set [tokA1, tokA2, tokB1]. \<exists>r. snd (check_token sample_ext sample_args t) = Inr r"
    by (auto simp: sample_check_A1 sample_check_A2 sample_check_B1)
  from filter_batch_total[OF this] m obtain ws where
    "filter_batch sample_ext sample_args [tokA1, tokA2, tokB1] = (ws, Inr [tokA1, tokA2])"
    by auto
  moreover have "get_tokenlist sample_ext sample_args =
        scan_batches sample_ext sample_args [[tokA1, tokA2, tokB1]]"
    using sample_store by (simp add: get_tokenlist_def sample_args_def del: scan_batches.simps)
  ultimately show ?thesis by simp
qed

theorem output_routing_witness:
  "gen_out (get_tokenlist sample_ext sample_args) \<noteq> [] \<and>
   list_all well_routed (gen_out (get_tokenlist sample_ext sample_args)) \<and>
   failed_user tokA1 \<in>
     set (fst (snd (listuser sample_ext False (Some ''email'')
                      (get_tokenlist sample_ext sample_args) ()))) \<and>
   fst (failed_user tokA1) = Stderr \<and>
   print_row [''A1'', ''hotp'', ''**failed to resolve user**''] \<in>
     set (fst (snd (listuser sample_ext False (Some ''email'')
                      (get_tokenlist sample_ext sample_args) ()))) \<and>
   list_all well_routed
     (fst (snd (listuser sample_ext False (Some ''email'')
                  (get_tokenlist sample_ext sample_args) ()))) \<and>
   print Payload (''n/a, A1, 3132, hotp, 6'') \<in>
     set (fst (snd (export sample_ext True False None (get_tokenlist sample_ext sample_args)))) \<and>
   list_all well_routed
     (fst (snd (export sample_ext True False None (get_tokenlist sample_ext sample_args)))) \<and>
   print Failure ''Failed to process token A1.'' \<in>
     set (fst (snd (disable sample_ops (get_tokenlist sample_ext sample_args) ()))) \<and>
   list_all (\<lambda>w. scan_write w \<or> action_write w)
     (fst (snd (disable sample_ops (get_tokenlist sample_ext sample_args) ())))"
proof -
  from sample_generator obtain ws where
    g: "get_tokenlist sample_ext sample_args = Yield ws [tokA1, tokA2] Done" by blast
  have ne: "gen_out (get_tokenlist sample_ext sample_args) \<noteq> []"
    using filter_batch_out_nonempty[of sample_ext sample_args "[tokA1, tokA2, tokB1]"]
      sample_store
    by (auto simp: get_tokenlist_def sample_args_def split: prod.splits sum.splits)
  have r1: "token_row sample_ext (Some ''email'') tokA1 =
              ([failed_user tokA1], [''A1'', ''hotp'', ''**failed to resolve user**''])"
    by (simp add: token_row_def sample_ext_def tokA1_def)
  have l1: "failed_user tokA1 \<in>
     set (fst (snd (listuser sample_ext False (Some ''email'')
                      (get_tokenlist sample_ext sample_args) ())))"
    by (simp add: g listuser_def export_token_data_def r1)
  have l2: "print_row [''A1'', ''hotp'', ''**failed to resolve user**''] \<in>
     set (fst (snd (listuser sample_ext False (Some ''email'')
                      (get_tokenlist sample_ext sample_args) ())))"
    by (simp add: g listuser_def export_token_data_def r1)
  have s: "fst (failed_user tokA1) = Stderr" by (simp add: failed_user_def stderr_write_def)
  have c1: "export_csv sample_ext None [tokA1, tokA2] =
              ([print Payload ''n/a, A1, 3132, hotp, 6'', print Payload ''n/a, A2, 3132, totp, 6''],
               None)"
    by (simp add: owner_of_def dict_get_str_def sample_ext_def tokA1_def tokA2_def py_lower_def
        is_upper_def)
  have e1: "print Payload (''n/a, A1, 3132, hotp, 6'') \<in>
     set (fst (snd (export sample_ext True False None (get_tokenlist sample_ext sample_args))))"
    by (simp add: g export_def export_batch_def c1 del: export_csv.simps)
  have d1: "print Failure ''Failed to process token A1.'' \<in>
     set (fst (snd (disable sample_ops (get_tokenlist sample_ext sample_args) ())))"
    by (simp add: g disable_def sample_ops_def tokA1_def tokA2_def)
  from output_routing[of sample_ext sample_args False "Some ''email''" "()" True False None sample_ops]
    ne l1 l2 s e1 d1
  show ?thesis by blast
qed


end
